theory Spec2Isabelle
  imports Main "HOL-Library.Word"
begin

section \<open>C strings and characters\<close>

text \<open>
  A C string is modelled by the list of its characters before the terminating NUL.
  Reading index \<open>i\<close> of the buffer gives the character for \<open>i < length s\<close>, the
  terminator (code 0) for \<open>i = length s\<close>, and is a read outside the string for any
  larger index, which the model reports as \<open>None\<close>. Character values are the
  codes 0..255 as \<open>int\<close>, the type of a C character expression after promotion.
\<close>

definition c_char :: "string \<Rightarrow> nat \<Rightarrow> int option" where
  "c_char s i =
     (if i < length s then Some (of_char (s ! i))
      else if i = length s then Some 0
      else None)"

definition tolower_c :: "int \<Rightarrow> int" where
  "tolower_c c = (if 65 \<le> c \<and> c \<le> 90 then c + 32 else c)"

definition isxdigit_c :: "int \<Rightarrow> bool" where
  "isxdigit_c c = ((48 \<le> c \<and> c \<le> 57) \<or> (97 \<le> c \<and> c \<le> 102) \<or> (65 \<le> c \<and> c \<le> 70))"

definition isspace_c :: "int \<Rightarrow> bool" where
  "isspace_c c = (c = 32 \<or> (9 \<le> c \<and> c \<le> 13))"

section \<open>Hex decoding and GUIDs\<close>

type_synonym u8 = "8 word"

text \<open>The macro \<open>HEX_DECODE_CHAR(c)\<close>; the arithmetic is on \<open>int\<close>.\<close>

definition HEX_DECODE_CHAR :: "int \<Rightarrow> int" where
  "HEX_DECODE_CHAR c = (if c \<ge> 48 \<and> c \<le> 57 then c - 48 else tolower_c c - 97 + 10)"

text \<open>
  The macro \<open>HEX_DECODE_BYTE(cc)\<close> applied to \<open>guid + k\<close>: it reads the characters at
  \<open>k\<close> and \<open>k + 1\<close>. The left shift by four is written as a multiplication by 16,
  and the assignment to a \<open>__u8\<close> array element keeps the low eight bits.
\<close>

definition HEX_DECODE_BYTE :: "string \<Rightarrow> nat \<Rightarrow> u8 option" where
  "HEX_DECODE_BYTE guid k =
     (case c_char guid k of
        None \<Rightarrow> None
      | Some c0 \<Rightarrow>
          (case c_char guid (k + 1) of
             None \<Rightarrow> None
           | Some c1 \<Rightarrow> Some (word_of_int (HEX_DECODE_CHAR c0 * 16 + HEX_DECODE_CHAR c1))))"

text \<open>
  \<open>guid_to_byte_array\<close>: the sixteen bytes in the order of the array indices 0..15.
  The result is \<open>None\<close> when one of the reads lies outside the string.
\<close>

definition guid_to_byte_array :: "string \<Rightarrow> u8 list option" where
  "guid_to_byte_array guid =
     those (map (HEX_DECODE_BYTE guid)
       [6, 4, 2, 0, 11, 9, 16, 14, 19, 21, 24, 26, 28, 30, 32, 34])"

text \<open>
  The same conversion where a read outside the string is not trapped: such a read
  yields the byte that lies there, \<open>mem k\<close> for the \<open>k\<close>-th byte behind the
  terminator.
\<close>

definition c_char_beyond :: "(nat \<Rightarrow> int) \<Rightarrow> string \<Rightarrow> nat \<Rightarrow> int" where
  "c_char_beyond mem s i =
     (case c_char s i of Some c \<Rightarrow> c | None \<Rightarrow> mem (i - length s - 1))"

definition HEX_DECODE_BYTE_beyond :: "(nat \<Rightarrow> int) \<Rightarrow> string \<Rightarrow> nat \<Rightarrow> u8" where
  "HEX_DECODE_BYTE_beyond mem guid k =
     word_of_int (HEX_DECODE_CHAR (c_char_beyond mem guid k) * 16 +
                  HEX_DECODE_CHAR (c_char_beyond mem guid (k + 1)))"

definition guid_to_byte_array_beyond :: "(nat \<Rightarrow> int) \<Rightarrow> string \<Rightarrow> u8 list" where
  "guid_to_byte_array_beyond mem guid =
     map (HEX_DECODE_BYTE_beyond mem guid)
       [6, 4, 2, 0, 11, 9, 16, 14, 19, 21, 24, 26, 28, 30, 32, 34]"

text \<open>
  The loop of \<open>is_valid_guid\<close>, from index \<open>i\<close> on. \<open>None\<close> is a read outside the
  string.
\<close>

function is_valid_guid_loop :: "string \<Rightarrow> nat \<Rightarrow> bool option" where
  "is_valid_guid_loop s i =
     (if i < 36 then
        (case c_char s i of
           None \<Rightarrow> None
         | Some c \<Rightarrow>
             if i = 8 \<or> i = 13 \<or> i = 18 \<or> i = 23 then
               (if c \<noteq> 45 then Some False else is_valid_guid_loop s (i + 1))
             else
               (if \<not> isxdigit_c c then Some False else is_valid_guid_loop s (i + 1)))
      else Some True)"
  by pat_completeness auto
termination
  by (relation "measure (\<lambda>(s, i). 36 - i)") auto

declare is_valid_guid_loop.simps [simp del]

text \<open>
  \<open>is_valid_guid\<close>. The guard of the source is
  \<open>string == NULL && strlen(string) != 36\<close>: for a null pointer the right operand
  is evaluated and dereferences it (\<open>None\<close>); for a string the left operand is false,
  the guard does not fire and the length is never compared.
\<close>

fun is_valid_guid :: "string option \<Rightarrow> bool option" where
  "is_valid_guid None = None"
| "is_valid_guid (Some s) = is_valid_guid_loop s 0"

text \<open>
  The canonical textual form \<open>xxxxxxxx-xxxx-xxxx-xxxx-xxxxxxxxxxxx\<close> in the words of
  the specification: 36 characters, hyphens at positions 8, 13, 18 and 23, hexadecimal
  digits of either case elsewhere.
\<close>

definition is_hex_digit :: "char \<Rightarrow> bool" where
  "is_hex_digit c = (c \<in> set ''0123456789abcdefABCDEF'')"

definition guid_char_ok :: "string \<Rightarrow> nat \<Rightarrow> bool" where
  "guid_char_ok s i = (if i \<in> {8, 13, 18, 23} then s ! i = CHR ''-'' else is_hex_digit (s ! i))"

definition canonical_guid :: "string \<Rightarrow> bool" where
  "canonical_guid s = (length s = 36 \<and> list_all (guid_char_ok s) [0..<36])"

text \<open>
  The value of a hexadecimal digit and the bytes written by a run of digit pairs, read
  left to right: the reference against which the byte order of the conversion is stated.
\<close>

definition hex_value :: "char \<Rightarrow> nat" where
  "hex_value c =
     (case map_of
        [(CHR ''0'', 0), (CHR ''1'', 1), (CHR ''2'', 2), (CHR ''3'', 3), (CHR ''4'', 4),
         (CHR ''5'', 5), (CHR ''6'', 6), (CHR ''7'', 7), (CHR ''8'', 8), (CHR ''9'', 9),
         (CHR ''a'', 10), (CHR ''b'', 11), (CHR ''c'', 12), (CHR ''d'', 13), (CHR ''e'', 14),
         (CHR ''f'', 15), (CHR ''A'', 10), (CHR ''B'', 11), (CHR ''C'', 12), (CHR ''D'', 13),
         (CHR ''E'', 14), (CHR ''F'', 15)] c of
        Some v \<Rightarrow> v
      | None \<Rightarrow> 0)"

fun hex_bytes :: "string \<Rightarrow> u8 list" where
  "hex_bytes (a # b # r) = of_nat (16 * hex_value a + hex_value b) # hex_bytes r"
| "hex_bytes _ = []"

section \<open>Integers in text\<close>

text \<open>
  The C library's \<open>strtol(string, &end, 0)\<close> on an LP64 host: white space is
  skipped, a sign is optional, a \<open>0x\<close> or \<open>0X\<close> that a hexadecimal digit follows
  selects base 16, another leading \<open>0\<close> base 8, anything else base 10; the longest
  run of digits of that base is converted and a value out of the range of \<open>long\<close> is
  replaced by the nearest bound. The result is the value and the offset of \<open>end\<close>;
  without any digit the value is 0 and \<open>end\<close> is the start of the string.
\<close>

definition digit_val :: "char \<Rightarrow> nat" where
  "digit_val ch =
     (let c = (of_char ch :: nat) in
      if 48 \<le> c \<and> c \<le> 57 then c - 48
      else if 97 \<le> c \<and> c \<le> 122 then c - 97 + 10
      else if 65 \<le> c \<and> c \<le> 90 then c - 65 + 10
      else 36)"

definition LONG_MAX :: int where "LONG_MAX = 2 ^ 63 - 1"
definition LONG_MIN :: int where "LONG_MIN = - (2 ^ 63)"
definition INT_MAX :: int where "INT_MAX = 2 ^ 31 - 1"

definition strtol :: "string \<Rightarrow> int \<times> nat" where
  "strtol string =
     (let s1 = dropWhile (\<lambda>c. isspace_c (of_char c)) string;
          neg = (case s1 of c # _ \<Rightarrow> c = CHR ''-'' | [] \<Rightarrow> False);
          s2 = (case s1 of c # r \<Rightarrow> if c = CHR ''-'' \<or> c = CHR ''+'' then r else s1 | [] \<Rightarrow> s1);
          hex = (case s2 of
                   z # x # d # _ \<Rightarrow>
                     z = CHR ''0'' \<and> (x = CHR ''x'' \<or> x = CHR ''X'') \<and> digit_val d < 16
                 | _ \<Rightarrow> False);
          base = (if hex then 16
                  else (case s2 of z # _ \<Rightarrow> if z = CHR ''0'' then 8 else 10 | [] \<Rightarrow> 10));
          s3 = (if hex then drop 2 s2 else s2);
          ds = takeWhile (\<lambda>c. digit_val c < base) s3;
          v = foldl (\<lambda>acc c. acc * int base + int (digit_val c)) 0 ds
      in if ds = [] then (0, 0)
         else (if neg then (if v > 2 ^ 63 then LONG_MIN else - v)
               else (if v > LONG_MAX then LONG_MAX else v),
               length string - length s3 + length ds))"

text \<open>
  \<open>is_valid_integer_string\<close>: the value written through \<open>value\<close> when the string
  is accepted, \<open>None\<close> when the function returns 0. The assignment of the
  \<open>long\<close> result to an \<open>int\<close> keeps the low 32 bits.
\<close>

definition is_valid_integer_string :: "string option \<Rightarrow> int option" where
  "is_valid_integer_string string =
     (case string of
        None \<Rightarrow> None
      | Some s \<Rightarrow>
          (let (r, e) = strtol s;
               ret = sint (word_of_int r :: 32 word)
           in if s \<noteq> [] \<and> e = length s then Some ret else None))"

definition is_valid_size :: "int \<Rightarrow> int \<Rightarrow> bool" where
  "is_valid_size v mx = (v \<ge> 0 \<and> v \<le> (if mx < 0 then INT_MAX else mx))"

definition is_valid_size_string :: "string option \<Rightarrow> int \<Rightarrow> int option" where
  "is_valid_size_string string mx =
     (case is_valid_integer_string string of
        None \<Rightarrow> None
      | Some temp_value \<Rightarrow> if is_valid_size temp_value mx then Some temp_value else None)"

section \<open>Result codes, constants, controls and the parse context\<close>

text \<open>
  Modelled from the spec: the result codes of \<open>CResult\<close>, declared in the header
  \<open>webcam.h\<close>, of which these are the ones the engine uses. \<open>C_SUCCESS\<close> is the zero
  of the enumeration: a test \<open>if(ret)\<close> of the source is \<open>ret \<noteq> C_SUCCESS\<close>.
\<close>

datatype CResult =
    C_SUCCESS | C_NOT_IMPLEMENTED | C_INIT_ERROR | C_INVALID_ARG | C_INVALID_DEVICE
  | C_NO_MEMORY | C_PARSE_ERROR | C_V4L2_ERROR | C_CANNOT_WRITE | C_BUFFER_TOO_SMALL

datatype ConstantType = CT_INVALID | CT_INTEGER | CT_GUID

text \<open>
  The structure \<open>Constant\<close>. The two members of its union are kept as two fields;
  the source reads each only from a constant of the matching type.
\<close>

record Constant =
  ctype :: ConstantType
  cname :: string
  cvalue :: int
  cguid :: "u8 list"

text \<open>
  Modelled from the spec: \<open>struct uvc_xu_control_info\<close> and the request flags of the
  driver's header (entity, selector and index of eight bits, a size of sixteen bits,
  a 32-bit flag mask).
\<close>

record uvc_xu_control_info =
  ci_entity :: "u8 list"
  ci_index :: u8
  ci_selector :: u8
  ci_size :: "16 word"
  ci_flags :: "32 word"

definition UVC_CTRL_FLAG_SET_CUR :: "32 word" where "UVC_CTRL_FLAG_SET_CUR = 1"
definition UVC_CTRL_FLAG_GET_CUR :: "32 word" where "UVC_CTRL_FLAG_GET_CUR = 2"
definition UVC_CTRL_FLAG_GET_MIN :: "32 word" where "UVC_CTRL_FLAG_GET_MIN = 4"
definition UVC_CTRL_FLAG_GET_MAX :: "32 word" where "UVC_CTRL_FLAG_GET_MAX = 8"
definition UVC_CTRL_FLAG_GET_RES :: "32 word" where "UVC_CTRL_FLAG_GET_RES = 16"
definition UVC_CTRL_FLAG_GET_DEF :: "32 word" where "UVC_CTRL_FLAG_GET_DEF = 32"
definition UVC_CTRL_FLAG_AUTO_UPDATE :: "32 word" where "UVC_CTRL_FLAG_AUTO_UPDATE = 128"

record UVCXUControl =
  xu_id :: string
  xu_info :: uvc_xu_control_info

datatype uvc_control_data_type =
    UVC_CTRL_DATA_TYPE_RAW | UVC_CTRL_DATA_TYPE_SIGNED | UVC_CTRL_DATA_TYPE_UNSIGNED
  | UVC_CTRL_DATA_TYPE_BOOLEAN | UVC_CTRL_DATA_TYPE_ENUM | UVC_CTRL_DATA_TYPE_BITMASK

datatype v4l2_ctrl_type =
    V4L2_CTRL_TYPE_INTEGER | V4L2_CTRL_TYPE_BOOLEAN | V4L2_CTRL_TYPE_STRING

text \<open>
  Modelled from the spec: \<open>struct uvc_xu_control_mapping\<close> of the driver's header;
  its \<open>name\<close> buffer holds 32 bytes.
\<close>

record uvc_xu_control_mapping =
  mp_id :: "32 word"
  mp_name :: string
  mp_entity :: "u8 list"
  mp_selector :: u8
  mp_size :: u8
  mp_offset :: u8
  mp_v4l2_type :: v4l2_ctrl_type
  mp_data_type :: uvc_control_data_type

text \<open>
  Modelled from the spec: the structure \<open>CDynctrlInfo\<close> of \<open>webcam.h\<close> with its
  flags, its message list and its statistics. The meta information is left out.
\<close>

datatype CDynctrlFlags = CD_REPORT_ERRORS | CD_RETRIEVE_META_INFO | CD_DONT_VALIDATE

datatype CDynctrlMessageSeverity = CD_SEVERITY_ERROR | CD_SEVERITY_WARNING | CD_SEVERITY_INFO

record CDynctrlMessage =
  msg_line :: int
  msg_col :: int
  msg_severity :: CDynctrlMessageSeverity
  msg_text :: string

record CDynctrlInfoElementStats =
  successful :: nat
  failed :: nat

record CDynctrlInfoStats =
  st_constants :: CDynctrlInfoElementStats
  st_controls :: CDynctrlInfoElementStats
  st_mappings :: CDynctrlInfoElementStats

record CDynctrlInfo =
  flags :: "CDynctrlFlags set"
  stats :: CDynctrlInfoStats
  messages :: "CDynctrlMessage list"

text \<open>
  The structure \<open>ParseContext\<close>. The two linked lists are lists with the head first.
  \<open>ioctl_calls\<close> is not a member of the structure: it counts the driver requests
  issued so far, so that the answer of a driver may depend on what was sent before.
\<close>

record ParseContext =
  info :: "CDynctrlInfo option"
  constants :: "Constant list"
  controls :: "UVCXUControl list"
  pass :: int
  ioctl_calls :: nat

section \<open>The document tree\<close>

text \<open>
  The tree the XML library hands over: element nodes with a name, a line number,
  attributes and children, and text nodes. A text node holds its content and, for
  the one place where the source reads behind the end of a content, the bytes that
  lie behind the terminator of the content in memory.
\<close>

datatype xmlNode =
    XML_ELEMENT_NODE string int "(string \<times> string) list" "xmlNode list"
  | XML_TEXT_NODE string "nat \<Rightarrow> int"

fun node_children :: "xmlNode \<Rightarrow> xmlNode list" where
  "node_children (XML_ELEMENT_NODE n l ps cs) = cs"
| "node_children (XML_TEXT_NODE t m) = []"

fun node_line :: "xmlNode \<Rightarrow> int" where
  "node_line (XML_ELEMENT_NODE n l ps cs) = l"
| "node_line (XML_TEXT_NODE t m) = 0"

fun is_element_named :: "string \<Rightarrow> xmlNode \<Rightarrow> bool" where
  "is_element_named name (XML_ELEMENT_NODE n l ps cs) = (n = name)"
| "is_element_named name (XML_TEXT_NODE t m) = False"

fun xmlGetProp :: "xmlNode \<Rightarrow> string \<Rightarrow> string option" where
  "xmlGetProp (XML_ELEMENT_NODE n l ps cs) name = map_of ps name"
| "xmlGetProp (XML_TEXT_NODE t m) name = None"

definition xml_get_node_text :: "xmlNode option \<Rightarrow> string option" where
  "xml_get_node_text node =
     (case node of
        None \<Rightarrow> None
      | Some n \<Rightarrow> (case node_children n of XML_TEXT_NODE t m # _ \<Rightarrow> Some t | _ \<Rightarrow> None))"

text \<open>
  The memory behind the text that \<open>xml_get_node_text\<close> returns for a node (of no
  account where there is no such text).
\<close>

definition xml_text_memory :: "xmlNode option \<Rightarrow> nat \<Rightarrow> int" where
  "xml_text_memory node =
     (case node of
        None \<Rightarrow> (\<lambda>k. 0)
      | Some n \<Rightarrow> (case node_children n of XML_TEXT_NODE t m # _ \<Rightarrow> m | _ \<Rightarrow> (\<lambda>k. 0)))"

definition xml_get_first_child_by_name :: "xmlNode \<Rightarrow> string \<Rightarrow> xmlNode option" where
  "xml_get_first_child_by_name node name = find (is_element_named name) (node_children node)"

text \<open>
  The nodes a loop visits that starts at \<open>xml_get_first_child_by_name\<close> and advances
  with \<open>xml_get_next_sibling_by_name\<close>: the children of that name, in document order.
\<close>

definition xml_children_by_name :: "xmlNode \<Rightarrow> string \<Rightarrow> xmlNode list" where
  "xml_children_by_name node name = filter (is_element_named name) (node_children node)"

text \<open>
  \<open>unicode_to_ascii\<close>. A null pointer gives a null pointer. The conversion of
  \<open>iconv\<close> from UTF-8 to ASCII copies a text all of whose bytes are below 128 and
  fails on every other text; the source meets the failure with \<open>assert(0)\<close>, so the
  run ends there (the outer \<open>None\<close>). The conversion descriptor of the context is
  taken to be the open one: \<open>c_add_control_mappings_from_file\<close> opens it before the
  loop over the devices and asserts that it is valid, so the first assertion of the
  function holds in every call of a session.
\<close>

definition unicode_to_ascii :: "string option \<Rightarrow> string option option" where
  "unicode_to_ascii unicode =
     (case unicode of
        None \<Rightarrow> Some None
      | Some s \<Rightarrow>
          if list_all (\<lambda>c. (of_char c :: nat) < 128) s then Some (Some s) else None)"

text \<open>\<open>normalize_string\<close>: the loop that filters white space, then the function.\<close>

function normalize_filter :: "string \<Rightarrow> string" where
  "normalize_filter [] = []"
| "normalize_filter (c # cs) =
     (if isspace_c (of_char c) then
        (case dropWhile (\<lambda>d. isspace_c (of_char d)) cs of
           [] \<Rightarrow> []
         | d # ds \<Rightarrow> CHR '' '' # d # normalize_filter ds)
      else c # normalize_filter cs)"
  by pat_completeness auto
termination
proof (relation "measure length")
  fix c :: char and cs d ds
  assume "dropWhile (\<lambda>d. isspace_c (of_char d)) cs = d # ds"
  then have "length (d # ds) \<le> length cs"
    using length_dropWhile_le [of "\<lambda>d. isspace_c (of_char d)" cs] by simp
  then show "(ds, c # cs) \<in> measure length" by simp
qed auto

definition normalize_string :: "string option \<Rightarrow> string option" where
  "normalize_string input =
     (case input of
        None \<Rightarrow> None
      | Some s \<Rightarrow> Some (normalize_filter (dropWhile (\<lambda>c. isspace_c (of_char c)) s)))"

definition unicode_to_normalized_ascii :: "string option \<Rightarrow> string option option" where
  "unicode_to_normalized_ascii unicode = map_option normalize_string (unicode_to_ascii unicode)"

section \<open>Name tables and lookups\<close>

definition get_uvc_request_by_name :: "string option \<Rightarrow> 32 word" where
  "get_uvc_request_by_name name =
     (case name of
        None \<Rightarrow> 0
      | Some n \<Rightarrow>
          if n = ''SET_CUR'' then UVC_CTRL_FLAG_SET_CUR
          else if n = ''GET_CUR'' then UVC_CTRL_FLAG_GET_CUR
          else if n = ''GET_MIN'' then UVC_CTRL_FLAG_GET_MIN
          else if n = ''GET_MAX'' then UVC_CTRL_FLAG_GET_MAX
          else if n = ''GET_RES'' then UVC_CTRL_FLAG_GET_RES
          else if n = ''GET_DEF'' then UVC_CTRL_FLAG_GET_DEF
          else 0)"

text \<open>The result \<open>-1\<close> of the source is \<open>None\<close>.\<close>

definition get_uvc_ctrl_type_by_name :: "string option \<Rightarrow> uvc_control_data_type option" where
  "get_uvc_ctrl_type_by_name name =
     (case name of
        None \<Rightarrow> None
      | Some n \<Rightarrow>
          if n = ''UVC_CTRL_DATA_TYPE_RAW'' then Some UVC_CTRL_DATA_TYPE_RAW
          else if n = ''UVC_CTRL_DATA_TYPE_SIGNED'' then Some UVC_CTRL_DATA_TYPE_SIGNED
          else if n = ''UVC_CTRL_DATA_TYPE_UNSIGNED'' then Some UVC_CTRL_DATA_TYPE_UNSIGNED
          else if n = ''UVC_CTRL_DATA_TYPE_BOOLEAN'' then Some UVC_CTRL_DATA_TYPE_BOOLEAN
          else if n = ''UVC_CTRL_DATA_TYPE_ENUM'' then Some UVC_CTRL_DATA_TYPE_ENUM
          else if n = ''UVC_CTRL_DATA_TYPE_BITMASK'' then Some UVC_CTRL_DATA_TYPE_BITMASK
          else None)"

text \<open>
  What the engine is built with: its two compile-time switches, and the text of the
  three messages whose rendering rests on declarations that are not among the
  sources (the macros \<open>GUID_FORMAT\<close> and \<open>GUID_ARGS\<close> of \<open>libwebcam.h\<close>, the number
  formats and \<open>strerror\<close> of the C library, and \<open>c_get_handle_error_text\<close>). Each
  text is a function of the arguments of its \<open>printf\<close> call: for a refused control
  the name of the device node, the entity, the selector, the value \<open>ioctl\<close> returned
  and \<open>errno\<close>; for a refused mapping the name of the device node, the name of the
  mapping, the value returned and \<open>errno\<close>; for a device that was not processed its
  short name and the result code.
\<close>

record build_config =
  DYNCTRL_IGNORE_EEXIST_AFTER_PASS1 :: bool
  ENABLE_RAW_CONTROLS :: bool
  add_failed_text :: "string \<Rightarrow> u8 list \<Rightarrow> u8 \<Rightarrow> int \<Rightarrow> int \<Rightarrow> string"
  map_failed_text :: "string \<Rightarrow> string \<Rightarrow> int \<Rightarrow> int \<Rightarrow> string"
  device_failed_text :: "string \<Rightarrow> CResult \<Rightarrow> string"

text \<open>The result 0 of the source is \<open>None\<close>.\<close>

definition get_v4l2_ctrl_type_by_name :: "build_config \<Rightarrow> string option \<Rightarrow> v4l2_ctrl_type option" where
  "get_v4l2_ctrl_type_by_name cfg name =
     (case name of
        None \<Rightarrow> None
      | Some n \<Rightarrow>
          if n = ''V4L2_CTRL_TYPE_INTEGER'' then Some V4L2_CTRL_TYPE_INTEGER
          else if n = ''V4L2_CTRL_TYPE_BOOLEAN'' then Some V4L2_CTRL_TYPE_BOOLEAN
          else if ENABLE_RAW_CONTROLS cfg \<and> n = ''V4L2_CTRL_TYPE_STRING''
            then Some V4L2_CTRL_TYPE_STRING
          else None)"

definition lookup_constant :: "string \<Rightarrow> ConstantType \<Rightarrow> ParseContext \<Rightarrow> Constant option" where
  "lookup_constant find_name find_type ctx =
     find (\<lambda>elem. cname elem = find_name \<and>
                  (if find_type = CT_INVALID then True else ctype elem = find_type))
          (constants ctx)"

text \<open>
  \<open>lookup_or_convert_to_integer\<close>: \<open>Inl\<close> is the error code returned, \<open>Inr\<close> the
  value stored through \<open>value\<close> with \<open>C_SUCCESS\<close>.
\<close>

definition lookup_or_convert_to_integer :: "string option \<Rightarrow> ParseContext \<Rightarrow> CResult + int" where
  "lookup_or_convert_to_integer text ctx =
     (case text of
        None \<Rightarrow> Inl C_PARSE_ERROR
      | Some t \<Rightarrow>
          (case is_valid_integer_string (Some t) of
             Some v \<Rightarrow> Inr v
           | None \<Rightarrow>
               (case lookup_constant t CT_INTEGER ctx of
                  Some constant \<Rightarrow> Inr (cvalue constant)
                | None \<Rightarrow> Inl C_PARSE_ERROR)))"

text \<open>
  \<open>lookup_or_convert_to_guid\<close>, with the same reading of the result; the outer
  \<open>None\<close> is a read outside the text by one of the two GUID functions.
\<close>

definition lookup_or_convert_to_guid ::
  "string option \<Rightarrow> ParseContext \<Rightarrow> (CResult + u8 list) option" where
  "lookup_or_convert_to_guid text ctx =
     (case text of
        None \<Rightarrow> Some (Inl C_PARSE_ERROR)
      | Some t \<Rightarrow>
          (case is_valid_guid (Some t) of
             None \<Rightarrow> None
           | Some True \<Rightarrow> map_option Inr (guid_to_byte_array t)
           | Some False \<Rightarrow>
               (case lookup_constant t CT_GUID ctx of
                  Some constant \<Rightarrow> Some (Inr (cguid constant))
                | None \<Rightarrow> Some (Inl C_PARSE_ERROR))))"

definition lookup_control :: "string \<Rightarrow> ParseContext \<Rightarrow> UVCXUControl option" where
  "lookup_control name ctx = find (\<lambda>elem. xu_id elem = name) (controls ctx)"

section \<open>The message log\<close>

text \<open>
  \<open>add_message_v\<close>. The text is the format with its arguments filled in; running out
  of memory is not modelled, and since no caller looks at the result code only the
  context is returned.
\<close>

definition add_message_v ::
  "ParseContext \<Rightarrow> int \<Rightarrow> int \<Rightarrow> CDynctrlMessageSeverity \<Rightarrow> string \<Rightarrow> ParseContext" where
  "add_message_v ctx line col severity txt =
     (case info ctx of
        None \<Rightarrow> ctx
      | Some i \<Rightarrow>
          if CD_REPORT_ERRORS \<notin> flags i then ctx
          else ctx\<lparr>info := Some (i\<lparr>messages := messages i @
                 [\<lparr>msg_line = line, msg_col = col, msg_severity = severity, msg_text = txt\<rparr>]\<rparr>)\<rparr>)"

definition add_info :: "ParseContext \<Rightarrow> string \<Rightarrow> ParseContext" where
  "add_info ctx txt = add_message_v ctx 0 0 CD_SEVERITY_INFO txt"

definition add_error :: "ParseContext \<Rightarrow> string \<Rightarrow> ParseContext" where
  "add_error ctx txt = add_message_v ctx 0 0 CD_SEVERITY_ERROR txt"

definition add_error_at_node :: "ParseContext \<Rightarrow> xmlNode \<Rightarrow> string \<Rightarrow> ParseContext" where
  "add_error_at_node ctx node txt = add_message_v ctx (node_line node) 0 CD_SEVERITY_ERROR txt"

text \<open>The argument \<open>text ? text : "<empty>"\<close> of the messages.\<close>

definition or_empty :: "string option \<Rightarrow> string" where
  "or_empty t = (case t of Some s \<Rightarrow> s | None \<Rightarrow> ''<empty>'')"

text \<open>A null pointer printed with \<open>%s\<close>, as the C library renders it.\<close>

definition or_null :: "string option \<Rightarrow> string" where
  "or_null t = (case t of Some s \<Rightarrow> s | None \<Rightarrow> ''(null)'')"

section \<open>Devices and the driver\<close>

text \<open>
  A request to the driver and its answer: the value \<open>ioctl\<close> returns and the
  \<open>errno\<close> it leaves. \<open>EPERM\<close> and \<open>EEXIST\<close> have their Linux values.
\<close>

datatype ioctl_request =
    UVCIOC_CTRL_ADD uvc_xu_control_info
  | UVCIOC_CTRL_MAP uvc_xu_control_mapping

record ioctl_result =
  io_ret :: int
  io_errno :: int

definition EPERM :: int where "EPERM = 1"
definition EEXIST :: int where "EEXIST = 17"

text \<open>
  Modelled from the spec: the structure \<open>CDevice\<close> of \<open>webcam.h\<close>, as far as the
  engine reads it (the short name and the driver that \<open>c_enum_devices\<close> reports),
  together with what the host does for this device: the name of its V4L2 node, whether
  \<open>c_open_device\<close> and \<open>open_v4l2_device\<close> give a handle, and the answer of its
  driver to the \<open>n\<close>-th request of the session.
\<close>

record CDevice =
  shortName :: string
  driver :: string
  v4l2_name :: string
  c_open_device :: bool
  open_v4l2_device :: bool
  ioctl :: "nat \<Rightarrow> ioctl_request \<Rightarrow> ioctl_result"

definition do_ioctl :: "CDevice \<Rightarrow> ioctl_request \<Rightarrow> ParseContext \<Rightarrow> ioctl_result \<times> ParseContext" where
  "do_ioctl dev req ctx = (ioctl dev (ioctl_calls ctx) req, ctx\<lparr>ioctl_calls := ioctl_calls ctx + 1\<rparr>)"

text \<open>
  The test after a request for a control or a mapping: the request failed, and with
  \<open>DYNCTRL_IGNORE_EEXIST_AFTER_PASS1\<close> the failure is not an "already exists" of a
  later pass.
\<close>

definition ioctl_failed :: "build_config \<Rightarrow> ParseContext \<Rightarrow> ioctl_result \<Rightarrow> bool" where
  "ioctl_failed cfg ctx r =
     (io_ret r \<noteq> 0 \<and>
      (if DYNCTRL_IGNORE_EEXIST_AFTER_PASS1 cfg then pass ctx = 1 \<or> io_errno r \<noteq> EEXIST
       else True))"

section \<open>Statistics\<close>

text \<open>
  The update that follows each declaration in \<open>process_constants\<close>,
  \<open>process_controls\<close> and \<open>process_mappings\<close>:
  \<open>if(ret) successful++; else failed++;\<close>, on the counters of the category.
\<close>

definition count_result :: "CResult \<Rightarrow> CDynctrlInfoElementStats \<Rightarrow> CDynctrlInfoElementStats" where
  "count_result ret st =
     (if ret \<noteq> C_SUCCESS then st\<lparr>successful := successful st + 1\<rparr>
      else st\<lparr>failed := failed st + 1\<rparr>)"

definition count_constant :: "CResult \<Rightarrow> ParseContext \<Rightarrow> ParseContext" where
  "count_constant ret ctx =
     (case info ctx of
        None \<Rightarrow> ctx
      | Some i \<Rightarrow>
          ctx\<lparr>info := Some (i\<lparr>stats := (stats i)\<lparr>st_constants :=
                 count_result ret (st_constants (stats i))\<rparr>\<rparr>)\<rparr>)"

definition count_control :: "CResult \<Rightarrow> ParseContext \<Rightarrow> ParseContext" where
  "count_control ret ctx =
     (case info ctx of
        None \<Rightarrow> ctx
      | Some i \<Rightarrow>
          ctx\<lparr>info := Some (i\<lparr>stats := (stats i)\<lparr>st_controls :=
                 count_result ret (st_controls (stats i))\<rparr>\<rparr>)\<rparr>)"

definition count_mapping :: "CResult \<Rightarrow> ParseContext \<Rightarrow> ParseContext" where
  "count_mapping ret ctx =
     (case info ctx of
        None \<Rightarrow> ctx
      | Some i \<Rightarrow>
          ctx\<lparr>info := Some (i\<lparr>stats := (stats i)\<lparr>st_mappings :=
                 count_result ret (st_mappings (stats i))\<rparr>\<rparr>)\<rparr>)"

section \<open>Processing the document\<close>

definition quoted :: "string \<Rightarrow> string" where
  "quoted t = [CHR 0x27] @ t @ [CHR 0x27]"

text \<open>
  \<open>process_mapping\<close>. \<open>dev\<close> is the device behind \<open>ctx->handle\<close> and
  \<open>ctx->v4l2_handle\<close>. The name is cut to the 31 characters that fit the buffer
  before its terminator. \<open>None\<close> is the failed assertion of a text conversion.
\<close>

definition process_mapping ::
  "build_config \<Rightarrow> CDevice \<Rightarrow> xmlNode \<Rightarrow> ParseContext \<Rightarrow> (CResult \<times> ParseContext) option" where
  "process_mapping cfg dev node_mapping ctx =
  (case xml_get_first_child_by_name node_mapping ''v4l2'' of
     None \<Rightarrow> Some (C_NOT_IMPLEMENTED, ctx)
   | Some node_v4l2 \<Rightarrow>
  (case xml_get_first_child_by_name node_mapping ''uvc'' of
     None \<Rightarrow> Some (C_PARSE_ERROR, add_error_at_node ctx node_mapping
               ''Mapping does not have UVC information. <uvc> is mandatory.'')
   | Some node_uvc \<Rightarrow>
  (case xml_get_first_child_by_name node_uvc ''control_ref'' of
     None \<Rightarrow> Some (C_PARSE_ERROR, add_error_at_node ctx node_uvc
               ''Control reference missing. <control_ref> is mandatory.'')
   | Some node_control_ref \<Rightarrow>
  (case xmlGetProp node_control_ref ''idref'' of
     None \<Rightarrow> Some (C_PARSE_ERROR, add_error_at_node ctx node_control_ref
               (''Invalid control reference. '' @ quoted ''idref'' @
                '' attribute referencing a <control> is mandatory.''))
   | Some control_ref \<Rightarrow>
  (case lookup_control control_ref ctx of
     None \<Rightarrow> Some (C_PARSE_ERROR, add_error_at_node ctx node_control_ref
               (''Invalid control reference: control with ID '' @ quoted control_ref @
                '' could not be found.''))
   | Some control \<Rightarrow>
  (case unicode_to_normalized_ascii
          (xml_get_node_text (xml_get_first_child_by_name node_mapping ''name'')) of
     None \<Rightarrow> None
   | Some None \<Rightarrow> Some (C_PARSE_ERROR, add_error_at_node ctx node_mapping
               ''Control mapping has no name. <name> is mandatory.'')
   | Some (Some name) \<Rightarrow>
  (let text_id = xml_get_node_text (xml_get_first_child_by_name node_v4l2 ''id'') in
   case lookup_or_convert_to_integer text_id ctx of
     Inl e \<Rightarrow> Some (C_PARSE_ERROR, add_error_at_node ctx node_v4l2
               (''V4L2 ID contains invalid number or references unknown constant: '' @
                quoted (or_empty text_id)))
   | Inr id_value \<Rightarrow>
  (let text_type = xml_get_node_text (xml_get_first_child_by_name node_v4l2 ''v4l2_type'') in
   case get_v4l2_ctrl_type_by_name cfg text_type of
     None \<Rightarrow> Some (C_PARSE_ERROR, add_error_at_node ctx node_v4l2
               (''Invalid V4L2 control type specified: '' @ quoted (or_empty text_type)))
   | Some v4l2_type \<Rightarrow>
  (case unicode_to_ascii
          (xml_get_node_text (xml_get_first_child_by_name node_uvc ''size'')) of
     None \<Rightarrow> None
   | Some size_string \<Rightarrow>
  (case is_valid_size_string size_string 0xFF of
     None \<Rightarrow> Some (C_PARSE_ERROR, add_error_at_node ctx node_v4l2
               (''Invalid UVC control size specified: '' @ quoted (or_empty size_string)))
   | Some size_value \<Rightarrow>
  (case unicode_to_ascii
          (xml_get_node_text (xml_get_first_child_by_name node_uvc ''offset'')) of
     None \<Rightarrow> None
   | Some offset_string \<Rightarrow>
  (case is_valid_size_string offset_string 0xFF of
     None \<Rightarrow> Some (C_PARSE_ERROR, add_error_at_node ctx node_v4l2
               (''Invalid UVC control offset specified: '' @ quoted (or_empty offset_string)))
   | Some offset_value \<Rightarrow>
  (let text_uvc = xml_get_node_text (xml_get_first_child_by_name node_uvc ''uvc_type'') in
   case get_uvc_ctrl_type_by_name text_uvc of
     None \<Rightarrow> Some (C_PARSE_ERROR, add_error_at_node ctx node_v4l2
               (''Invalid UVC control type specified: '' @ quoted (or_empty text_uvc)))
   | Some uvc_type \<Rightarrow>
  (let mapping_info =
         \<lparr>mp_id = word_of_int id_value, mp_name = take 31 name,
          mp_entity = ci_entity (xu_info control), mp_selector = ci_selector (xu_info control),
          mp_size = word_of_int size_value, mp_offset = word_of_int offset_value,
          mp_v4l2_type = v4l2_type, mp_data_type = uvc_type\<rparr>;
       (r, ctx1) = do_ioctl dev (UVCIOC_CTRL_MAP mapping_info) ctx
   in if ioctl_failed cfg ctx1 r
      then Some (C_V4L2_ERROR, add_error ctx1
              (map_failed_text cfg (v4l2_name dev) (mp_name mapping_info)
                 (io_ret r) (io_errno r)))
      else Some (C_SUCCESS, ctx1)))))))))))))))"

text \<open>
  The loop of \<open>process_mappings\<close> over the \<open>mapping\<close> children, and the function:
  without a \<open>mappings\<close> node its assertion fails (\<open>None\<close>).
\<close>

fun process_mappings_loop ::
  "build_config \<Rightarrow> CDevice \<Rightarrow> xmlNode list \<Rightarrow> ParseContext \<Rightarrow> ParseContext option" where
  "process_mappings_loop cfg dev [] ctx = Some ctx"
| "process_mappings_loop cfg dev (node_mapping # rest) ctx =
     (case process_mapping cfg dev node_mapping ctx of
        None \<Rightarrow> None
      | Some (ret, ctx1) \<Rightarrow> process_mappings_loop cfg dev rest (count_mapping ret ctx1))"

definition process_mappings ::
  "build_config \<Rightarrow> CDevice \<Rightarrow> xmlNode option \<Rightarrow> ParseContext \<Rightarrow> (CResult \<times> ParseContext) option" where
  "process_mappings cfg dev node_mappings ctx =
     (case node_mappings of
        None \<Rightarrow> None
      | Some n \<Rightarrow>
          map_option (Pair C_SUCCESS)
            (process_mappings_loop cfg dev (xml_children_by_name n ''mapping'') ctx))"

text \<open>The loop over the \<open>request\<close> children in \<open>process_control\<close>.\<close>

fun process_requests :: "xmlNode list \<Rightarrow> 32 word \<times> ParseContext \<Rightarrow> 32 word \<times> ParseContext" where
  "process_requests [] (fl, ctx) = (fl, ctx)"
| "process_requests (node_request # rest) (fl, ctx) =
     (let text = xml_get_node_text (Some node_request);
          flag = get_uvc_request_by_name text;
          ctx1 = (if flag = 0
                  then add_error_at_node ctx node_request
                         (''Invalid UVC request specified: '' @ quoted (or_empty text))
                  else ctx)
      in process_requests rest (or fl flag, ctx1))"

text \<open>
  \<open>process_control\<close>. \<open>None\<close> is a read outside a string during the resolution of
  the entity, which the validation before the conversion excludes. The casts to
  \<open>__u8\<close> and \<open>__u16\<close> keep the low bits of the value.
\<close>

definition process_control ::
  "build_config \<Rightarrow> CDevice \<Rightarrow> xmlNode \<Rightarrow> ParseContext \<Rightarrow> (CResult \<times> ParseContext) option" where
  "process_control cfg dev node_control ctx =
  (case xmlGetProp node_control ''id'' of
     None \<Rightarrow> Some (C_PARSE_ERROR, add_error_at_node ctx node_control
               (''Control has no ID. '' @ quoted ''id'' @ '' attribute is mandatory.''))
   | Some ident \<Rightarrow>
  (let text_entity = xml_get_node_text (xml_get_first_child_by_name node_control ''entity'') in
   case lookup_or_convert_to_guid text_entity ctx of
     None \<Rightarrow> None
   | Some (Inl e) \<Rightarrow> Some (e, add_error_at_node ctx node_control
               (''Control entity contains invalid GUID or references unknown constant: '' @
                quoted (or_empty text_entity)))
   | Some (Inr entity) \<Rightarrow>
  (let text_selector = xml_get_node_text (xml_get_first_child_by_name node_control ''selector'') in
   case lookup_or_convert_to_integer text_selector ctx of
     Inl e \<Rightarrow> Some (e, add_error_at_node ctx node_control
               (''Control selector contains invalid number or references unknown constant: '' @
                quoted (or_empty text_selector)))
   | Inr selector_value \<Rightarrow>
  (let text_index = xml_get_node_text (xml_get_first_child_by_name node_control ''index'') in
   case lookup_or_convert_to_integer text_index ctx of
     Inl e \<Rightarrow> Some (e, add_error_at_node ctx node_control
               (''Invalid control index specified: '' @ quoted (or_empty text_index)))
   | Inr index_value \<Rightarrow>
  (let text_size = xml_get_node_text (xml_get_first_child_by_name node_control ''size'') in
   case lookup_or_convert_to_integer text_size ctx of
     Inl e \<Rightarrow> Some (e, add_error_at_node ctx node_control
               (''Invalid control size specified: '' @ quoted (or_empty text_size)))
   | Inr size_value \<Rightarrow>
       if \<not> is_valid_size size_value 0xFFFF
       then Some (C_SUCCESS, add_error_at_node ctx node_control
               (''Invalid control size specified: '' @ quoted (or_empty text_size)))
       else
  (case xml_get_first_child_by_name node_control ''requests'' of
     None \<Rightarrow> Some (C_PARSE_ERROR, add_error_at_node ctx node_control
               ''List of supported UVC requests missing. <requests> is mandatory.'')
   | Some node_requests \<Rightarrow>
  (let (fl, ctx1) = process_requests (xml_children_by_name node_requests ''request'') (0, ctx);
       xu_control =
         \<lparr>xu_id = ident,
          xu_info = \<lparr>ci_entity = entity, ci_index = word_of_int index_value,
                     ci_selector = word_of_int selector_value,
                     ci_size = word_of_int size_value,
                     ci_flags = or fl UVC_CTRL_FLAG_AUTO_UPDATE\<rparr>\<rparr>;
       (r, ctx2) = do_ioctl dev (UVCIOC_CTRL_ADD (xu_info xu_control)) ctx1;
       (ret, ctx3) =
         (if ioctl_failed cfg ctx2 r
          then (C_V4L2_ERROR, add_error ctx2
                  (add_failed_text cfg (v4l2_name dev) (ci_entity (xu_info xu_control))
                     (ci_selector (xu_info xu_control)) (io_ret r) (io_errno r)))
          else (C_SUCCESS, ctx2))
   in Some (ret, ctx3\<lparr>controls := xu_control # controls ctx3\<rparr>))))))))"

fun process_controls_loop ::
  "build_config \<Rightarrow> CDevice \<Rightarrow> xmlNode list \<Rightarrow> ParseContext \<Rightarrow> ParseContext option" where
  "process_controls_loop cfg dev [] ctx = Some ctx"
| "process_controls_loop cfg dev (node_control # rest) ctx =
     (case process_control cfg dev node_control ctx of
        None \<Rightarrow> None
      | Some (ret, ctx1) \<Rightarrow> process_controls_loop cfg dev rest (count_control ret ctx1))"

definition process_controls ::
  "build_config \<Rightarrow> CDevice \<Rightarrow> xmlNode \<Rightarrow> ParseContext \<Rightarrow> ParseContext option" where
  "process_controls cfg dev node_controls ctx =
     process_controls_loop cfg dev (xml_children_by_name node_controls ''control'') ctx"

definition process_device ::
  "build_config \<Rightarrow> CDevice \<Rightarrow> xmlNode \<Rightarrow> ParseContext \<Rightarrow> ParseContext option" where
  "process_device cfg dev node_device ctx =
     (case xml_get_first_child_by_name node_device ''controls'' of
        None \<Rightarrow> Some ctx
      | Some node_controls \<Rightarrow> process_controls cfg dev node_controls ctx)"

fun process_device_loop ::
  "build_config \<Rightarrow> CDevice \<Rightarrow> xmlNode list \<Rightarrow> ParseContext \<Rightarrow> ParseContext option" where
  "process_device_loop cfg dev [] ctx = Some ctx"
| "process_device_loop cfg dev (node_device # rest) ctx =
     (case process_device cfg dev node_device ctx of
        None \<Rightarrow> None
      | Some ctx1 \<Rightarrow> process_device_loop cfg dev rest ctx1)"

definition process_devices ::
  "build_config \<Rightarrow> CDevice \<Rightarrow> xmlNode \<Rightarrow> ParseContext \<Rightarrow> ParseContext option" where
  "process_devices cfg dev node_devices ctx =
     process_device_loop cfg dev (xml_children_by_name node_devices ''device'') ctx"

text \<open>
  \<open>process_constant\<close>. \<open>None\<close> is abnormal termination: the failed assertion of the
  conversion of the name, the assertion of \<open>add_error_at_node\<close> on a missing \<open>value\<close>
  node, or the read through a null pointer when a \<open>guid\<close> constant has no value text.
  With a value text \<open>guid_to_byte_array\<close> is called on the text as it stands; where
  its reads leave the text they are not trapped and see the memory behind it. The
  member of the union that the type does not select stays zero.
\<close>

definition new_constant :: "Constant \<Rightarrow> ParseContext \<Rightarrow> ParseContext" where
  "new_constant constant ctx = ctx\<lparr>constants := constant # constants ctx\<rparr>"

definition process_constant :: "xmlNode \<Rightarrow> ParseContext \<Rightarrow> (CResult \<times> ParseContext) option" where
  "process_constant node_constant ctx =
  (case unicode_to_ascii (xml_get_node_text (xml_get_first_child_by_name node_constant ''id'')) of
     None \<Rightarrow> None
   | Some None \<Rightarrow> Some (C_PARSE_ERROR, add_error_at_node ctx node_constant
               ''Constant has no name. <id> is mandatory.'')
   | Some (Some name) \<Rightarrow>
       if lookup_constant name CT_INVALID ctx \<noteq> None
       then Some (C_PARSE_ERROR, add_error_at_node ctx node_constant
               (''Constant '' @ quoted name @ '' has already been defined. Ignoring redefinition.''))
       else
  (let type = xmlGetProp node_constant ''type'';
       ct = (if type = Some ''integer'' then CT_INTEGER
             else if type = Some ''guid'' then CT_GUID
             else CT_INVALID);
       node_value = xml_get_first_child_by_name node_constant ''value'';
       val = xml_get_node_text node_value
   in case ct of
        CT_INTEGER \<Rightarrow>
          (case is_valid_integer_string val of
             None \<Rightarrow>
               (case node_value of
                  None \<Rightarrow> None
                | Some nv \<Rightarrow> Some (C_PARSE_ERROR, add_error_at_node ctx nv
                    (''Integer constant '' @ name @ '' has invalid value '' @
                     quoted (or_null val) @ ''.'')))
           | Some v \<Rightarrow>
               Some (C_SUCCESS, new_constant
                 \<lparr>ctype = CT_INTEGER, cname = name, cvalue = v, cguid = replicate 16 0\<rparr> ctx))
      | CT_GUID \<Rightarrow>
          (case val of
             None \<Rightarrow> None
           | Some t \<Rightarrow>
               Some (C_SUCCESS, new_constant
                 \<lparr>ctype = CT_GUID, cname = name, cvalue = 0,
                  cguid = (case guid_to_byte_array t of
                             Some g \<Rightarrow> g
                           | None \<Rightarrow> guid_to_byte_array_beyond (xml_text_memory node_value) t)\<rparr>
                 ctx))
      | CT_INVALID \<Rightarrow>
          Some (C_PARSE_ERROR, add_error_at_node ctx node_constant
            (''Constant has unknown type '' @ quoted (or_null type) @ '' (must be '' @
             quoted ''integer'' @ '' or '' @ quoted ''guid'' @ '').''))))"

text \<open>
  One turn of the loop of \<open>process_constants\<close>, the loop, and the function, whose
  assertion fails without a \<open>constants\<close> node.
\<close>

definition process_constants_step :: "xmlNode \<Rightarrow> ParseContext \<Rightarrow> ParseContext option" where
  "process_constants_step node_constant ctx =
     (case process_constant node_constant ctx of
        None \<Rightarrow> None
      | Some (ret, ctx1) \<Rightarrow> Some (count_constant ret ctx1))"

fun process_constants_loop :: "xmlNode list \<Rightarrow> ParseContext \<Rightarrow> ParseContext option" where
  "process_constants_loop [] ctx = Some ctx"
| "process_constants_loop (node_constant # rest) ctx =
     (case process_constants_step node_constant ctx of
        None \<Rightarrow> None
      | Some ctx1 \<Rightarrow> process_constants_loop rest ctx1)"

definition process_constants :: "xmlNode option \<Rightarrow> ParseContext \<Rightarrow> (CResult \<times> ParseContext) option" where
  "process_constants node_constants ctx =
     (case node_constants of
        None \<Rightarrow> None
      | Some n \<Rightarrow>
          map_option (Pair C_SUCCESS)
            (process_constants_loop (xml_children_by_name n ''constant'') ctx))"

text \<open>
  \<open>process_meta\<close>, as far as the rest of the run depends on it: its assertion fails
  without a \<open>meta\<close> node, and when the meta information is asked for
  \<open>string_to_version\<close> asserts that the \<open>version\<close> and the \<open>revision\<close> have a text
  and the texts of author, contact and copyright are converted. What it stores in the
  meta information is left out.
\<close>

definition process_meta :: "xmlNode option \<Rightarrow> ParseContext \<Rightarrow> CResult option" where
  "process_meta node_meta ctx =
     (case node_meta of
        None \<Rightarrow> None
      | Some n \<Rightarrow>
          (case info ctx of
             None \<Rightarrow> Some C_SUCCESS
           | Some i \<Rightarrow>
               if CD_RETRIEVE_META_INFO \<in> flags i then
                 (if xml_get_node_text (xml_get_first_child_by_name n ''version'') = None
                     \<or> xml_get_node_text (xml_get_first_child_by_name n ''revision'') = None
                     \<or> unicode_to_normalized_ascii
                          (xml_get_node_text (xml_get_first_child_by_name n ''author'')) = None
                     \<or> unicode_to_ascii
                          (xml_get_node_text (xml_get_first_child_by_name n ''contact'')) = None
                     \<or> unicode_to_ascii
                          (xml_get_node_text (xml_get_first_child_by_name n ''copyright'')) = None
                  then None else Some C_SUCCESS)
               else Some C_SUCCESS))"

text \<open>The loop of \<open>process_dynctrl_doc\<close> over the \<open>devices\<close> lists.\<close>

fun process_devices_loop ::
  "build_config \<Rightarrow> CDevice \<Rightarrow> xmlNode list \<Rightarrow> ParseContext \<Rightarrow> ParseContext option" where
  "process_devices_loop cfg dev [] ctx = Some ctx"
| "process_devices_loop cfg dev (node_devices # rest) ctx =
     (case process_devices cfg dev node_devices ctx of
        None \<Rightarrow> None
      | Some ctx1 \<Rightarrow> process_devices_loop cfg dev rest ctx1)"

text \<open>The part of \<open>process_dynctrl_doc\<close> that runs in the first pass only.\<close>

definition process_first_pass :: "xmlNode \<Rightarrow> ParseContext \<Rightarrow> (CResult \<times> ParseContext) option" where
  "process_first_pass node_root ctx =
     (if pass ctx = 1 then
        (case process_meta (xml_get_first_child_by_name node_root ''meta'') ctx of
           None \<Rightarrow> None
         | Some ret \<Rightarrow>
             if ret \<noteq> C_SUCCESS then Some (ret, ctx)
             else process_constants (xml_get_first_child_by_name node_root ''constants'') ctx)
      else Some (C_SUCCESS, ctx))"

definition process_dynctrl_doc ::
  "build_config \<Rightarrow> CDevice \<Rightarrow> xmlNode option \<Rightarrow> ParseContext \<Rightarrow> (CResult \<times> ParseContext) option" where
  "process_dynctrl_doc cfg dev xml_doc ctx =
     (case xml_doc of
        None \<Rightarrow> Some (C_INVALID_ARG, ctx)
      | Some node_root \<Rightarrow>
          (case process_first_pass node_root (ctx\<lparr>pass := pass ctx + 1\<rparr>) of
             None \<Rightarrow> None
           | Some (ret, ctx1) \<Rightarrow>
               if ret \<noteq> C_SUCCESS then Some (ret, ctx1)
               else
                 (case process_devices_loop cfg dev
                         (xml_children_by_name node_root ''devices'') ctx1 of
                    None \<Rightarrow> None
                  | Some ctx2 \<Rightarrow>
                      process_mappings cfg dev
                        (xml_get_first_child_by_name node_root ''mappings'') ctx2)))"

section \<open>Devices: probing and the session\<close>

definition brightness_control :: uvc_xu_control_info where
  "brightness_control =
     \<lparr>ci_entity = [0, 0, 0, 0, 0, 0, 0, 0, 0, 0, 0, 0, 0, 0, 1, 1],
      ci_index = 0, ci_selector = 2, ci_size = 0, ci_flags = 0\<rparr>"

definition device_supports_dynctrl :: "CDevice \<Rightarrow> ParseContext \<Rightarrow> CResult \<times> ParseContext" where
  "device_supports_dynctrl dev ctx =
     (let (r, ctx1) = do_ioctl dev (UVCIOC_CTRL_ADD brightness_control) ctx
      in (if io_ret r = - 1 then
            (if io_errno r = EPERM then C_CANNOT_WRITE
             else if io_errno r = EEXIST then C_SUCCESS
             else C_NOT_IMPLEMENTED)
          else C_NOT_IMPLEMENTED, ctx1))"

definition add_control_mappings ::
  "build_config \<Rightarrow> xmlNode option \<Rightarrow> CDevice \<Rightarrow> ParseContext \<Rightarrow> (CResult \<times> ParseContext) option" where
  "add_control_mappings cfg xml_doc dev ctx =
     (if \<not> open_v4l2_device dev then Some (C_INVALID_DEVICE, ctx)
      else
        (let (ret, ctx1) = device_supports_dynctrl dev ctx
         in if ret \<noteq> C_SUCCESS then Some (ret, ctx1)
            else process_dynctrl_doc cfg dev xml_doc ctx1))"

text \<open>
  The loop over the devices in \<open>c_add_control_mappings_from_file\<close>. Its state is the
  context, the counter \<open>successful_devices\<close> and the variable \<open>ret\<close>, which a skipped
  device leaves as it is and every call of \<open>add_control_mappings\<close> overwrites.
\<close>

fun device_loop ::
  "build_config \<Rightarrow> xmlNode option \<Rightarrow> CDevice list \<Rightarrow> ParseContext \<times> int \<times> CResult \<Rightarrow>
     (ParseContext \<times> int \<times> CResult) option" where
  "device_loop cfg xml_doc [] st = Some st"
| "device_loop cfg xml_doc (dev # rest) (ctx, successful_devices, ret) =
     (if driver dev \<noteq> ''uvcvideo'' then
        device_loop cfg xml_doc rest
          (add_info ctx (''device '' @ quoted (shortName dev) @
                         '' skipped because it is not a UVC device.''),
           successful_devices, ret)
      else if \<not> c_open_device dev then
        device_loop cfg xml_doc rest
          (add_error ctx (''device '' @ quoted (shortName dev) @
                          '' skipped because it could not be opened.''),
           successful_devices, ret)
      else
        (case add_control_mappings cfg xml_doc dev ctx of
           None \<Rightarrow> None
         | Some (r, ctx1) \<Rightarrow>
             if r = C_SUCCESS then
               device_loop cfg xml_doc rest (ctx1, successful_devices + 1, r)
             else if r = C_NOT_IMPLEMENTED then
               device_loop cfg xml_doc rest
                 (add_error ctx1 (''device '' @ quoted (shortName dev) @
                    '' skipped because the driver '' @ quoted (driver dev) @
                    '' behind it does not seem to support dynamic controls.''),
                  successful_devices, r)
             else if r = C_CANNOT_WRITE then
               device_loop cfg xml_doc rest
                 (add_error ctx1 (''device '' @ quoted (shortName dev) @
                    '' skipped because you do not have the right permissions. '' @
                    ''Newer driver versions require root permissions.''),
                  successful_devices, r)
             else
               device_loop cfg xml_doc rest
                 (add_error ctx1 (device_failed_text cfg (shortName dev) r),
                  successful_devices, r)))"

text \<open>The statement after the loop, which gives the result of a finished session.\<close>

definition session_result :: "ParseContext \<times> int \<times> CResult \<Rightarrow> CResult" where
  "session_result st =
     (case st of (ctx, successful_devices, ret) \<Rightarrow>
        if successful_devices = 0 then C_INVALID_DEVICE else ret)"

text \<open>
  What the host gives the session: whether the library is initialised, the results
  of the two calls of \<open>c_enum_devices\<close> (the first with an empty buffer), the devices
  of the second call, and the XML parser, which answers with a tree or with the line,
  the column and the text of its error.
\<close>

record host =
  initialized :: bool
  enum_first :: CResult
  enum_second :: CResult
  devices :: "CDevice list"
  xmlCtxtReadFile :: "string \<Rightarrow> (int \<times> int \<times> string) + xmlNode"

definition new_context :: "CDynctrlInfo option \<Rightarrow> ParseContext" where
  "new_context i = \<lparr>info = i, constants = [], controls = [], pass = 0, ioctl_calls = 0\<rparr>"

text \<open>
  \<open>c_add_control_mappings_from_file\<close>: the result code and the caller's \<open>info\<close>
  structure as the call leaves it.
\<close>

definition c_add_control_mappings_from_file ::
  "build_config \<Rightarrow> host \<Rightarrow> string option \<Rightarrow> CDynctrlInfo option \<Rightarrow>
     (CResult \<times> CDynctrlInfo option) option" where
  "c_add_control_mappings_from_file cfg h file_name caller_info =
     (if \<not> initialized h then Some (C_INIT_ERROR, caller_info)
      else case file_name of
        None \<Rightarrow> Some (C_INVALID_ARG, caller_info)
      | Some fname \<Rightarrow>
          if enum_first h = C_SUCCESS then Some (C_INVALID_DEVICE, caller_info)
          else if enum_first h \<noteq> C_BUFFER_TOO_SMALL then Some (enum_first h, caller_info)
          else if enum_second h \<noteq> C_SUCCESS then Some (enum_second h, caller_info)
          else
            (let ctx = new_context caller_info in
             case xmlCtxtReadFile h fname of
               Inl (line, col, message) \<Rightarrow>
                 Some (C_PARSE_ERROR,
                   info (add_message_v ctx line col CD_SEVERITY_ERROR
                     (''Malformed control mapping file encountered. Unable to parse: '' @
                      message)))
             | Inr node_root \<Rightarrow>
                 (case device_loop cfg (Some node_root) (devices h) (ctx, 0, C_SUCCESS) of
                    None \<Rightarrow> None
                  | Some st \<Rightarrow> Some (session_result st, info (fst st)))))"

section \<open>Reference definitions and sample inputs\<close>

text \<open>
  The hexadecimal decode of the fixed positions that \<open>guid_to_byte_array\<close> reads,
  for a text of any content; a position at or after the end of the text counts as the
  terminator.
\<close>

definition char_code_at :: "string \<Rightarrow> nat \<Rightarrow> int" where
  "char_code_at v k = (if k < length v then of_char (v ! k) else 0)"

definition hex_decode_positions :: "string \<Rightarrow> u8 list" where
  "hex_decode_positions v =
     map (\<lambda>k. word_of_int (HEX_DECODE_CHAR (char_code_at v k) * 16 +
                            HEX_DECODE_CHAR (char_code_at v (k + 1))))
       [6, 4, 2, 0, 11, 9, 16, 14, 19, 21, 24, 26, 28, 30, 32, 34]"

text \<open>Builders for document trees; the memory behind every text is zero.\<close>

definition elem :: "string \<Rightarrow> int \<Rightarrow> xmlNode list \<Rightarrow> xmlNode" where
  "elem n l cs = XML_ELEMENT_NODE n l [] cs"

definition text_elem :: "string \<Rightarrow> int \<Rightarrow> string \<Rightarrow> xmlNode" where
  "text_elem n l t = XML_ELEMENT_NODE n l [] [XML_TEXT_NODE t (\<lambda>k. 0)]"

definition constant_node :: "int \<Rightarrow> string \<Rightarrow> string \<Rightarrow> string \<Rightarrow> xmlNode" where
  "constant_node l ty name v =
     XML_ELEMENT_NODE ''constant'' l [(''type'', ty)]
       [text_elem ''id'' l name, text_elem ''value'' l v]"

definition control_node :: "int \<Rightarrow> string \<Rightarrow> string \<Rightarrow> string list \<Rightarrow> xmlNode" where
  "control_node l ident entity requests =
     XML_ELEMENT_NODE ''control'' l [(''id'', ident)]
       [text_elem ''entity'' l entity, text_elem ''selector'' l ''1'',
        text_elem ''index'' l ''0'', text_elem ''size'' l ''2'',
        elem ''requests'' l (map (text_elem ''request'' (l + 1)) requests)]"

definition mapping_node :: "int \<Rightarrow> string \<Rightarrow> xmlNode" where
  "mapping_node l idref =
     elem ''mapping'' l
       [text_elem ''name'' l ''Pan (relative)'',
        elem ''uvc'' l
          [XML_ELEMENT_NODE ''control_ref'' l [(''idref'', idref)] [],
           text_elem ''size'' l ''16'', text_elem ''offset'' l ''0'',
           text_elem ''uvc_type'' l ''UVC_CTRL_DATA_TYPE_SIGNED''],
        elem ''v4l2'' l
          [text_elem ''id'' l ''0x0A046D04'',
           text_elem ''v4l2_type'' l ''V4L2_CTRL_TYPE_INTEGER'']]"

definition document :: "xmlNode list \<Rightarrow> xmlNode list \<Rightarrow> xmlNode list \<Rightarrow> xmlNode" where
  "document cs ctrls maps =
     elem ''config'' 1
       [elem ''meta'' 2 [],
        elem ''constants'' 3 cs,
        elem ''devices'' 10 [elem ''device'' 11 [elem ''controls'' 12 ctrls]],
        elem ''mappings'' 30 maps]"

text \<open>
  A document with one GUID constant, one control that refers to it with two
  recognised requests, and one mapping of that control.
\<close>

definition sample_document :: xmlNode where
  "sample_document =
     document
       [constant_node 4 ''guid'' ''BRIGHTNESS_GUID'' ''63610682-5070-49ab-b8cc-b3855e8d221d'']
       [control_node 13 ''ctrl_pan'' ''BRIGHTNESS_GUID'' [''SET_CUR'', ''GET_CUR'']]
       [mapping_node 31 ''ctrl_pan'']"

definition empty_stats :: CDynctrlInfoElementStats where
  "empty_stats = \<lparr>successful = 0, failed = 0\<rparr>"

definition reporting_info :: CDynctrlInfo where
  "reporting_info =
     \<lparr>flags = {CD_REPORT_ERRORS},
      stats = \<lparr>st_constants = empty_stats, st_controls = empty_stats,
               st_mappings = empty_stats\<rparr>,
      messages = []\<rparr>"

text \<open>A build with both switches as released and plain texts for the three messages.\<close>

definition default_build :: build_config where
  "default_build =
     \<lparr>DYNCTRL_IGNORE_EEXIST_AFTER_PASS1 = True, ENABLE_RAW_CONTROLS = False,
      add_failed_text = (\<lambda>n g sel r e. n @ '': unable to add control''),
      map_failed_text = (\<lambda>n m r e. n @ '': unable to map '' @ quoted m @ '' control''),
      device_failed_text =
        (\<lambda>n r. ''device '' @ quoted n @ '' was not processed successfully'')\<rparr>"

text \<open>
  Three devices on the \<open>uvcvideo\<close> driver: one whose driver knows dynamic controls
  (the probe finds the brightness control existing, every other request succeeds),
  one whose driver refuses every request for lack of privilege, and one whose driver
  accepts every request, the probe included.
\<close>

definition uvc_device :: "string \<Rightarrow> (nat \<Rightarrow> ioctl_request \<Rightarrow> ioctl_result) \<Rightarrow> CDevice" where
  "uvc_device n f =
     \<lparr>shortName = n, driver = ''uvcvideo'', v4l2_name = ''/dev/'' @ n,
      c_open_device = True, open_v4l2_device = True, ioctl = f\<rparr>"

definition supporting_driver :: "nat \<Rightarrow> ioctl_request \<Rightarrow> ioctl_result" where
  "supporting_driver n req =
     (if req = UVCIOC_CTRL_ADD brightness_control
      then \<lparr>io_ret = - 1, io_errno = EEXIST\<rparr>
      else \<lparr>io_ret = 0, io_errno = 0\<rparr>)"

definition unprivileged_driver :: "nat \<Rightarrow> ioctl_request \<Rightarrow> ioctl_result" where
  "unprivileged_driver n req = \<lparr>io_ret = - 1, io_errno = EPERM\<rparr>"

definition accepting_driver :: "nat \<Rightarrow> ioctl_request \<Rightarrow> ioctl_result" where
  "accepting_driver n req = \<lparr>io_ret = 0, io_errno = 0\<rparr>"

definition sample_host :: "xmlNode \<Rightarrow> CDevice list \<Rightarrow> host" where
  "sample_host doc ds =
     \<lparr>initialized = True, enum_first = C_BUFFER_TOO_SMALL, enum_second = C_SUCCESS,
      devices = ds, xmlCtxtReadFile = (\<lambda>f. Inr doc)\<rparr>"

definition constant_stats :: "ParseContext \<Rightarrow> CDynctrlInfoElementStats option" where
  "constant_stats ctx = map_option (\<lambda>i. st_constants (stats i)) (info ctx)"

text \<open>
  Observations of a context: whether messages are collected, the messages collected
  so far, and the context with further messages at the end of its log.
\<close>

definition reporting :: "ParseContext \<Rightarrow> bool" where
  "reporting ctx = (case info ctx of None \<Rightarrow> False | Some i \<Rightarrow> CD_REPORT_ERRORS \<in> flags i)"

definition message_log :: "ParseContext \<Rightarrow> CDynctrlMessage list" where
  "message_log ctx = (case info ctx of None \<Rightarrow> [] | Some i \<Rightarrow> messages i)"

definition append_messages :: "ParseContext \<Rightarrow> CDynctrlMessage list \<Rightarrow> ParseContext" where
  "append_messages ctx ms =
     (case info ctx of
        None \<Rightarrow> ctx
      | Some i \<Rightarrow>
          if CD_REPORT_ERRORS \<notin> flags i then ctx
          else ctx\<lparr>info := Some (i\<lparr>messages := messages i @ ms\<rparr>)\<rparr>)"

text \<open>
  For a \<open>request\<close> node: the flag its token stands for (0 when the token is not one
  of the six request names) and the message logged for a token that is not.
\<close>

definition request_flag :: "xmlNode \<Rightarrow> 32 word" where
  "request_flag node_request = get_uvc_request_by_name (xml_get_node_text (Some node_request))"

definition invalid_request_message :: "xmlNode \<Rightarrow> CDynctrlMessage" where
  "invalid_request_message node_request =
     \<lparr>msg_line = node_line node_request, msg_col = 0, msg_severity = CD_SEVERITY_ERROR,
      msg_text = ''Invalid UVC request specified: '' @
                 quoted (or_empty (xml_get_node_text (Some node_request)))\<rparr>"

text \<open>
  The message logged when the driver refuses a control: error level, no position, the
  text that the build renders from the device node, the entity and the selector of
  the control, and the answer of the driver.
\<close>

definition add_control_failure_message ::
  "build_config \<Rightarrow> CDevice \<Rightarrow> uvc_xu_control_info \<Rightarrow> ioctl_result \<Rightarrow> CDynctrlMessage" where
  "add_control_failure_message cfg dev ci r =
     \<lparr>msg_line = 0, msg_col = 0, msg_severity = CD_SEVERITY_ERROR,
      msg_text = add_failed_text cfg (v4l2_name dev) (ci_entity ci) (ci_selector ci)
                   (io_ret r) (io_errno r)\<rparr>"

text \<open>
  A request token in the words of the specification: recognised when it is one of the
  six request names.
\<close>

definition recognised_request :: "xmlNode \<Rightarrow> bool" where
  "recognised_request node_request =
     (xml_get_node_text (Some node_request) \<in>
        Some ` {''SET_CUR'', ''GET_CUR'', ''GET_MIN'', ''GET_MAX'', ''GET_RES'', ''GET_DEF''})"

text \<open>
  The checks of \<open>process_control\<close> that decide whether a declaration reaches the
  registry: the identifier is present, the entity, the selector and the index resolve,
  the size resolves to a valid size, and the \<open>requests\<close> list is present.
\<close>

definition control_valid :: "ParseContext \<Rightarrow> xmlNode \<Rightarrow> bool" where
  "control_valid ctx node_control =
     (xmlGetProp node_control ''id'' \<noteq> None
      \<and> (case lookup_or_convert_to_guid
                (xml_get_node_text (xml_get_first_child_by_name node_control ''entity'')) ctx of
            Some (Inr g) \<Rightarrow> True | _ \<Rightarrow> False)
      \<and> (case lookup_or_convert_to_integer
                (xml_get_node_text (xml_get_first_child_by_name node_control ''selector'')) ctx of
            Inr v \<Rightarrow> True | Inl e \<Rightarrow> False)
      \<and> (case lookup_or_convert_to_integer
                (xml_get_node_text (xml_get_first_child_by_name node_control ''index'')) ctx of
            Inr v \<Rightarrow> True | Inl e \<Rightarrow> False)
      \<and> (case lookup_or_convert_to_integer
                (xml_get_node_text (xml_get_first_child_by_name node_control ''size'')) ctx of
            Inr v \<Rightarrow> is_valid_size v 0xFFFF | Inl e \<Rightarrow> False)
      \<and> xml_get_first_child_by_name node_control ''requests'' \<noteq> None)"

text \<open>
  The control declarations of a document in the order in which a pass meets them:
  through every \<open>devices\<close> list, every \<open>device\<close> in it, and its first \<open>controls\<close>
  node.
\<close>

definition device_control_nodes :: "xmlNode \<Rightarrow> xmlNode list" where
  "device_control_nodes node_device =
     (case xml_get_first_child_by_name node_device ''controls'' of
        None \<Rightarrow> []
      | Some node_controls \<Rightarrow> xml_children_by_name node_controls ''control'')"

definition control_nodes :: "xmlNode \<Rightarrow> xmlNode list" where
  "control_nodes node_root =
     concat (map (\<lambda>node_devices.
                    concat (map device_control_nodes
                              (xml_children_by_name node_devices ''device'')))
               (xml_children_by_name node_root ''devices''))"

text \<open>
  A device the session applies the document to: it is on the \<open>uvcvideo\<close> driver, both
  of its handles open, and its driver answers the probe with "already exists".
\<close>

definition supporting :: "CDevice \<Rightarrow> bool" where
  "supporting dev =
     (driver dev = ''uvcvideo'' \<and> c_open_device dev \<and> open_v4l2_device dev
      \<and> (\<forall>n. ioctl dev n (UVCIOC_CTRL_ADD brightness_control) =
                \<lparr>io_ret = - 1, io_errno = EEXIST\<rparr>))"

text \<open>
  The registry entry of a control declaration that passes the checks: its identifier,
  the resolved entity, index, selector and size, and the flags of its recognised
  request tokens together with \<open>AUTO_UPDATE\<close>.
\<close>

definition control_request_nodes :: "xmlNode \<Rightarrow> xmlNode list" where
  "control_request_nodes node_control =
     (case xml_get_first_child_by_name node_control ''requests'' of
        None \<Rightarrow> []
      | Some node_requests \<Rightarrow> xml_children_by_name node_requests ''request'')"

definition control_entry :: "ParseContext \<Rightarrow> xmlNode \<Rightarrow> UVCXUControl" where
  "control_entry ctx node_control =
     \<lparr>xu_id = (case xmlGetProp node_control ''id'' of Some ident \<Rightarrow> ident | None \<Rightarrow> []),
      xu_info =
        \<lparr>ci_entity =
           (case lookup_or_convert_to_guid
                   (xml_get_node_text (xml_get_first_child_by_name node_control ''entity'')) ctx of
              Some (Inr g) \<Rightarrow> g | _ \<Rightarrow> []),
         ci_index = word_of_int
           (case lookup_or_convert_to_integer
                   (xml_get_node_text (xml_get_first_child_by_name node_control ''index'')) ctx of
              Inr v \<Rightarrow> v | Inl e \<Rightarrow> 0),
         ci_selector = word_of_int
           (case lookup_or_convert_to_integer
                   (xml_get_node_text (xml_get_first_child_by_name node_control ''selector'')) ctx of
              Inr v \<Rightarrow> v | Inl e \<Rightarrow> 0),
         ci_size = word_of_int
           (case lookup_or_convert_to_integer
                   (xml_get_node_text (xml_get_first_child_by_name node_control ''size'')) ctx of
              Inr v \<Rightarrow> v | Inl e \<Rightarrow> 0),
         ci_flags = or (foldl or 0 (map request_flag (control_request_nodes node_control)))
                       UVC_CTRL_FLAG_AUTO_UPDATE\<rparr>\<rparr>"

text \<open>
  What one pass over a document puts in front of the registry: the entries of its
  valid control declarations, the entry of the last declaration first.
\<close>

definition pass_entries :: "ParseContext \<Rightarrow> xmlNode \<Rightarrow> UVCXUControl list" where
  "pass_entries ctx node_root =
     rev (map (control_entry ctx) (filter (control_valid ctx) (control_nodes node_root)))"

text \<open>
  References for the value that a \<open>guid\<close> constant stores. The memory a decode reads
  starts with the characters of the text, goes on with the terminator and then with
  the bytes behind it. The decode takes a decimal digit as its value and every other
  character as its lower-case code less 87, which is the value of a hexadecimal digit
  on the letters \<open>a\<close> to \<open>f\<close> and \<open>A\<close> to \<open>F\<close>. The positions it reads are the
  32 positions of a GUID text that are not separators.
\<close>

definition buffer_byte :: "(nat \<Rightarrow> int) \<Rightarrow> string \<Rightarrow> nat \<Rightarrow> int" where
  "buffer_byte mem v k =
     (if k < length v then of_char (v ! k)
      else if k = length v then 0
      else mem (k - length v - 1))"

definition loose_hex_value :: "int \<Rightarrow> int" where
  "loose_hex_value c =
     (if 48 \<le> c \<and> c \<le> 57 then c - 48
      else (if 65 \<le> c \<and> c \<le> 90 then c + 32 else c) - 87)"

definition positional_decode :: "(nat \<Rightarrow> int) \<Rightarrow> string \<Rightarrow> u8 list" where
  "positional_decode mem v =
     map (\<lambda>k. word_of_int (16 * loose_hex_value (buffer_byte mem v k) +
                            loose_hex_value (buffer_byte mem v (k + 1))))
       [6, 4, 2, 0, 11, 9, 16, 14, 19, 21, 24, 26, 28, 30, 32, 34]"

definition guid_digit_positions :: "nat list" where
  "guid_digit_positions = [0..<8] @ [9..<13] @ [14..<18] @ [19..<23] @ [24..<36]"

definition grouped_guid_bytes :: "string \<Rightarrow> u8 list" where
  "grouped_guid_bytes v =
     rev (hex_bytes (take 8 v)) @ rev (hex_bytes (take 4 (drop 9 v))) @
     rev (hex_bytes (take 4 (drop 14 v))) @
     hex_bytes (take 4 (drop 19 v)) @ hex_bytes (take 12 (drop 24 v))"

section \<open>Properties of the GUID functions\<close>

lemma of_char_int_eq_iff: "((of_char c :: int) = of_char d) = (c = d)"
  by simp

lemma hyphen_code: "(of_char c = (45::int)) = (c = CHR ''-'')"
  using of_char_int_eq_iff [of c "CHR ''-''"] by simp

lemma isxdigit_is_hex_digit: "isxdigit_c (of_char c) = is_hex_digit c"
proof
  assume a: "isxdigit_c (of_char c)"
  define k :: int where "k = of_char c"
  have c: "c = char_of k" by (simp add: k_def)
  from a have "k \<in> {48,49,50,51,52,53,54,55,56,57,97,98,99,100,101,102,65,66,67,68,69,70}"
    unfolding isxdigit_c_def k_def[symmetric] by (simp; arith)
  then have "char_of k \<in> set ''0123456789abcdefABCDEF''"
    by (elim insertE emptyE) (simp_all add: char_of_def)
  then show "is_hex_digit c" unfolding c is_hex_digit_def .
next
  assume "is_hex_digit c"
  then show "isxdigit_c (of_char c)" by (auto simp: is_hex_digit_def isxdigit_c_def)
qed

lemma hex_decode_value: "is_hex_digit c \<Longrightarrow> HEX_DECODE_CHAR (of_char c) = int (hex_value c)"
  unfolding is_hex_digit_def by (auto simp: HEX_DECODE_CHAR_def tolower_c_def hex_value_def)

lemma canonical_guid_iff:
  "canonical_guid s = (length s = 36 \<and> (\<forall>i<36. guid_char_ok s i))"
  by (auto simp: canonical_guid_def list_all_iff)

lemma loop_range_step:
  assumes "i < length s" "i < (36::nat)"
  shows "(\<forall>j. i \<le> j \<and> j < 36 \<longrightarrow> j < length s \<and> P j) =
         (P i \<and> (\<forall>j. i + 1 \<le> j \<and> j < 36 \<longrightarrow> j < length s \<and> P j))"
  using assms by (auto simp: Suc_le_eq dest: le_neq_implies_less)

text \<open>
  From an index inside the string (or at its terminator) the loop never reads outside
  the string, and it accepts exactly when every remaining position below 36 exists
  and holds the character its position asks for.
\<close>

lemma is_valid_guid_loop_char:
  "i \<le> length s \<Longrightarrow>
   is_valid_guid_loop s i =
     Some (\<forall>j. i \<le> j \<and> j < 36 \<longrightarrow> j < length s \<and> guid_char_ok s j)"
proof (induction s i rule: is_valid_guid_loop.induct)
  case (1 s i)
  show ?case
  proof (cases "i < 36")
    case False
    then show ?thesis by (subst is_valid_guid_loop.simps) auto
  next
    case lt: True
    show ?thesis
    proof (cases "i < length s")
      case False
      with 1(3) have "i = length s" by simp
      with lt show ?thesis
        by (subst is_valid_guid_loop.simps) (auto simp: c_char_def isxdigit_c_def)
    next
      case inside: True
      note step = loop_range_step [OF inside lt, of "guid_char_ok s"]
      show ?thesis
      proof (cases "i = 8 \<or> i = 13 \<or> i = 18 \<or> i = 23")
        case sep: True
        then have ok: "guid_char_ok s i = (s ! i = CHR ''-'')"
          by (auto simp: guid_char_ok_def)
        show ?thesis
        proof (cases "s ! i = CHR ''-''")
          case True
          with 1(1)[OF lt _ sep] inside lt sep show ?thesis
            by (subst is_valid_guid_loop.simps) (simp add: c_char_def hyphen_code step ok)
        next
          case False
          with inside lt sep show ?thesis
            by (subst is_valid_guid_loop.simps) (simp add: c_char_def hyphen_code step ok)
        qed
      next
        case nsep: False
        then have ok: "guid_char_ok s i = is_hex_digit (s ! i)"
          by (auto simp: guid_char_ok_def)
        show ?thesis
        proof (cases "is_hex_digit (s ! i)")
          case True
          with 1(2)[OF lt _ nsep] inside lt nsep show ?thesis
            by (subst is_valid_guid_loop.simps)
               (simp add: c_char_def isxdigit_is_hex_digit step ok)
        next
          case False
          with inside lt nsep show ?thesis
            by (subst is_valid_guid_loop.simps)
               (simp add: c_char_def isxdigit_is_hex_digit step ok)
        qed
      qed
    qed
  qed
qed

text \<open>
  What \<open>is_valid_guid\<close> decides for a string: whether its first 36 characters are a
  canonical GUID. Nothing is asked of what follows them.
\<close>

lemma is_valid_guid_prefix:
  "is_valid_guid (Some s) = Some (36 \<le> length s \<and> canonical_guid (take 36 s))"
proof -
  have "(\<forall>j. 0 \<le> j \<and> j < 36 \<longrightarrow> j < length s \<and> guid_char_ok s j) =
        (36 \<le> length s \<and> canonical_guid (take 36 s))"
  proof (cases "36 \<le> length s")
    case True
    then show ?thesis
      by (auto simp: canonical_guid_iff guid_char_ok_def)
  next
    case False
    then have "length s < 36" by simp
    then have "\<not> (\<forall>j. 0 \<le> j \<and> j < 36 \<longrightarrow> j < length s \<and> guid_char_ok s j)"
      by (auto intro!: exI [of _ "length s"])
    with False show ?thesis by simp
  qed
  then show ?thesis
    using is_valid_guid_loop_char [of 0 s] by simp
qed

lemma is_valid_guid_canonical:
  assumes "canonical_guid s"
  shows "is_valid_guid (Some s) = Some True"
proof -
  from assms have "length s = 36" by (simp add: canonical_guid_def)
  with assms show ?thesis by (simp only: is_valid_guid_prefix) simp
qed

lemma list_of_length_36:
  assumes "length s = 36"
  shows "s = [s!0, s!1, s!2, s!3, s!4, s!5, s!6, s!7, s!8, s!9, s!10, s!11, s!12, s!13, s!14,
     s!15, s!16, s!17, s!18, s!19, s!20, s!21, s!22, s!23, s!24, s!25, s!26, s!27, s!28,
     s!29, s!30, s!31, s!32, s!33, s!34, s!35]"
proof -
  have "s = map ((!) s) [0..<36]" using assms map_nth[of s] by simp
  also have "\<dots> = [s!0, s!1, s!2, s!3, s!4, s!5, s!6, s!7, s!8, s!9, s!10, s!11, s!12, s!13,
     s!14, s!15, s!16, s!17, s!18, s!19, s!20, s!21, s!22, s!23, s!24, s!25, s!26, s!27,
     s!28, s!29, s!30, s!31, s!32, s!33, s!34, s!35]"
    by (simp add: upt_rec eval_nat_numeral)
  finally show ?thesis .
qed

lemma guid_to_byte_array_explicit:
  "guid_to_byte_array [c0, c1, c2, c3, c4, c5, c6, c7, c8, c9, c10, c11, c12, c13, c14, c15,
     c16, c17, c18, c19, c20, c21, c22, c23, c24, c25, c26, c27, c28, c29, c30, c31, c32,
     c33, c34, c35] =
   Some (map (\<lambda>(a, b). word_of_int (HEX_DECODE_CHAR (of_char a) * 16 + HEX_DECODE_CHAR (of_char b)))
     [(c6, c7), (c4, c5), (c2, c3), (c0, c1), (c11, c12), (c9, c10), (c16, c17), (c14, c15),
      (c19, c20), (c21, c22), (c24, c25), (c26, c27), (c28, c29), (c30, c31), (c32, c33),
      (c34, c35)])"
  by (simp add: guid_to_byte_array_def HEX_DECODE_BYTE_def c_char_def)

lemma hex_pair_value:
  "is_hex_digit a \<Longrightarrow> is_hex_digit b \<Longrightarrow>
   (word_of_int (HEX_DECODE_CHAR (of_char a) * 16 + HEX_DECODE_CHAR (of_char b)) :: u8) =
   of_nat (16 * hex_value a + hex_value b)"
  by (simp add: hex_decode_value)

section \<open>The claims about GUID texts\<close>

text \<open>
  Claim C7. A text is accepted as a GUID literal exactly when it is the canonical
  36-character form; every text of another length is not a GUID literal. The
  function does not keep to this: its guard never compares the length, so a text
  that continues after a canonical GUID is accepted. The theorem evaluates
  \<open>is_valid_guid\<close> on a text of 39 characters, which it accepts although the text is
  not canonical.
\<close>

theorem is_valid_guid_accepts_longer_text:
  "is_valid_guid (Some ''00112233-4455-6677-8899-aabbccddeeffXYZ'') = Some True
   \<and> length ''00112233-4455-6677-8899-aabbccddeeffXYZ'' = 39
   \<and> \<not> canonical_guid ''00112233-4455-6677-8899-aabbccddeeffXYZ''"
  by code_simp

text \<open>
  Claim C8. For every canonical GUID text the sixteen stored bytes are: the bytes of
  the first group (8 digits) in reversed order, those of the second and of the third
  group (4 digits each) in reversed order, then the bytes of the fourth group and of
  the last twelve digits in the order of the text.
\<close>

theorem guid_byte_order:
  assumes "canonical_guid s"
  shows "guid_to_byte_array s =
    Some (rev (hex_bytes (take 8 s)) @ rev (hex_bytes (take 4 (drop 9 s))) @
          rev (hex_bytes (take 4 (drop 14 s))) @
          hex_bytes (take 4 (drop 19 s)) @ hex_bytes (drop 24 s))"
proof -
  from assms have len: "length s = 36" and ok: "\<And>i. i < 36 \<Longrightarrow> guid_char_ok s i"
    by (simp_all add: canonical_guid_iff)
  have hex: "\<And>i. i < 36 \<Longrightarrow> i \<notin> {8, 13, 18, 23} \<Longrightarrow> is_hex_digit (s ! i)"
    using ok by (simp add: guid_char_ok_def)
  show ?thesis
    apply (subst (1 2 3 4 5 6) list_of_length_36 [OF len])
    apply (simp only: guid_to_byte_array_explicit)
    apply (simp add: hex_pair_value hex del: of_int_add of_int_mult of_nat_add of_nat_mult)
    done
qed

theorem guid_byte_order_witness:
  "canonical_guid ''00112233-4455-6677-8899-aAbBcCdDeEfF'' \<and>
   guid_to_byte_array ''00112233-4455-6677-8899-aAbBcCdDeEfF'' =
     Some [0x33, 0x22, 0x11, 0x00, 0x55, 0x44, 0x77, 0x66,
           0x88, 0x99, 0xAA, 0xBB, 0xCC, 0xDD, 0xEE, 0xFF]"
proof -
  have h: "canonical_guid ''00112233-4455-6677-8899-aAbBcCdDeEfF''"
    by (simp add: canonical_guid_def guid_char_ok_def is_hex_digit_def upt_rec)
  show ?thesis
    using h guid_byte_order [OF h] by (simp add: hex_value_def)
qed

text \<open>
  The decode fails exactly on a text of fewer than 35 characters, where it reads past
  the terminator; on any other text it yields the decode of the fixed positions,
  whatever the characters are.
\<close>

lemma HEX_DECODE_BYTE_cases:
  "HEX_DECODE_BYTE s k =
     (if length s < k + 1 then None
      else Some (word_of_int (HEX_DECODE_CHAR (char_code_at s k) * 16 +
                              HEX_DECODE_CHAR (char_code_at s (k + 1)))))"
  by (auto simp: HEX_DECODE_BYTE_def c_char_def char_code_at_def)

lemma guid_to_byte_array_cases:
  "guid_to_byte_array v = (if length v < 35 then None else Some (hex_decode_positions v))"
proof (cases "length v < 35")
  case True
  then have "HEX_DECODE_BYTE v 34 = None" by (simp add: HEX_DECODE_BYTE_cases)
  then show ?thesis using True
    by (simp add: guid_to_byte_array_def split: option.splits)
next
  case False
  then have "\<And>k. k \<le> 34 \<Longrightarrow> HEX_DECODE_BYTE v k =
      Some (word_of_int (HEX_DECODE_CHAR (char_code_at v k) * 16 +
                              HEX_DECODE_CHAR (char_code_at v (k + 1))))"
    by (simp add: HEX_DECODE_BYTE_cases)
  then show ?thesis using False
    by (simp add: guid_to_byte_array_def hex_decode_positions_def del: of_int_add of_int_mult)
qed

lemma HEX_DECODE_BYTE_beyond_in_bounds:
  "k + 1 \<le> length s \<Longrightarrow> HEX_DECODE_BYTE s k = Some (HEX_DECODE_BYTE_beyond mem s k)"
  by (simp add: HEX_DECODE_BYTE_def HEX_DECODE_BYTE_beyond_def c_char_beyond_def c_char_def)

lemma guid_to_byte_array_in_bounds:
  assumes "35 \<le> length v"
  shows "guid_to_byte_array v = Some (guid_to_byte_array_beyond mem v)"
proof -
  have "\<And>k. k \<le> 34 \<Longrightarrow> HEX_DECODE_BYTE v k = Some (HEX_DECODE_BYTE_beyond mem v k)"
    using assms by (simp add: HEX_DECODE_BYTE_beyond_in_bounds)
  then show ?thesis
    by (simp add: guid_to_byte_array_def guid_to_byte_array_beyond_def)
qed

lemma guid_to_byte_array_None_iff: "(guid_to_byte_array v = None) = (length v < 35)"
  by (simp add: guid_to_byte_array_cases)

lemma HEX_DECODE_CHAR_loose: "HEX_DECODE_CHAR c = loose_hex_value c"
  by (simp add: HEX_DECODE_CHAR_def loose_hex_value_def tolower_c_def)

lemma c_char_beyond_buffer: "c_char_beyond mem v k = buffer_byte mem v k"
  by (simp add: c_char_beyond_def c_char_def buffer_byte_def)

lemma guid_to_byte_array_beyond_decode:
  "guid_to_byte_array_beyond mem v = positional_decode mem v"
  by (simp add: guid_to_byte_array_beyond_def positional_decode_def HEX_DECODE_BYTE_beyond_def
        HEX_DECODE_CHAR_loose c_char_beyond_buffer mult.commute
      del: of_int_add of_int_mult)

lemma guid_to_byte_array_take:
  assumes "36 \<le> length v"
  shows "guid_to_byte_array v = guid_to_byte_array (take 36 v)"
proof -
  have "\<And>k. k \<le> 34 \<Longrightarrow> HEX_DECODE_BYTE v k = HEX_DECODE_BYTE (take 36 v) k"
    using assms by (simp add: HEX_DECODE_BYTE_def c_char_def)
  then show ?thesis by (simp add: guid_to_byte_array_def)
qed

text \<open>
  On a text whose 32 digit positions hold hexadecimal digits the conversion yields the
  grouped bytes, whatever stands at the separator positions and behind position 35.
\<close>

lemma guid_to_byte_array_grouped:
  assumes "36 \<le> length v"
      and "list_all (\<lambda>i. is_hex_digit (v ! i)) guid_digit_positions"
  shows "guid_to_byte_array v = Some (grouped_guid_bytes v)"
proof -
  define s where "s = take 36 v"
  from assms(1) have len: "length s = 36" by (simp add: s_def)
  have hex: "\<And>i. i < 36 \<Longrightarrow> i \<notin> {8, 13, 18, 23} \<Longrightarrow> is_hex_digit (s ! i)"
  proof -
    fix i :: nat
    assume "i < 36" and "i \<notin> {8, 13, 18, 23}"
    then have "i \<in> set guid_digit_positions"
      by (simp add: guid_digit_positions_def; arith)
    with assms(2) have "is_hex_digit (v ! i)" by (simp add: list_all_iff)
    with \<open>i < 36\<close> show "is_hex_digit (s ! i)" by (simp add: s_def)
  qed
  have groups: "grouped_guid_bytes v =
      rev (hex_bytes (take 8 s)) @ rev (hex_bytes (take 4 (drop 9 s))) @
      rev (hex_bytes (take 4 (drop 14 s))) @
      hex_bytes (take 4 (drop 19 s)) @ hex_bytes (drop 24 s)"
    by (simp add: grouped_guid_bytes_def drop_take s_def)
  have "guid_to_byte_array s =
      Some (rev (hex_bytes (take 8 s)) @ rev (hex_bytes (take 4 (drop 9 s))) @
            rev (hex_bytes (take 4 (drop 14 s))) @
            hex_bytes (take 4 (drop 19 s)) @ hex_bytes (drop 24 s))"
    apply (subst (1 2 3 4 5 6) list_of_length_36 [OF len])
    apply (simp only: guid_to_byte_array_explicit)
    apply (simp add: hex_pair_value hex del: of_int_add of_int_mult of_nat_add of_nat_mult)
    done
  then show ?thesis
    by (simp only: guid_to_byte_array_take [OF assms(1)] groups s_def [symmetric])
qed

text \<open>
  Claim C10. A constant of type \<open>guid\<close> is declared without any validation of its
  value text. With a name that is not yet defined and any value text \<open>v\<close>, the
  declaration succeeds and puts a \<open>guid\<close> constant of that name in front of the
  table, whose sixteen bytes are the hexadecimal decode of the fixed positions 0 to
  35, read from the memory that starts with \<open>v\<close>: where the 32 digit positions of
  \<open>v\<close> hold hexadecimal digits these are the grouped bytes of a GUID, whatever the
  separators and the rest of \<open>v\<close> are, and any other character is decoded all the
  same. For a text of 35 characters or more all reads stay inside the text and its
  terminator; for a shorter text the decode indexes past the end of the string, which
  nothing in \<open>process_constant\<close> prevents, and the bytes behind the text go into the
  value.
\<close>

theorem guid_constant_not_validated:
  assumes "unicode_to_ascii (xml_get_node_text (xml_get_first_child_by_name node ''id'')) =
             Some (Some name)"
      and "lookup_constant name CT_INVALID ctx = None"
      and "xmlGetProp node ''type'' = Some ''guid''"
      and "xml_get_first_child_by_name node ''value'' = Some node_value"
      and "xml_get_node_text (Some node_value) = Some v"
      and "g = positional_decode (xml_text_memory (Some node_value)) v"
  shows "process_constant node ctx =
           Some (C_SUCCESS,
                 ctx\<lparr>constants :=
                       \<lparr>ctype = CT_GUID, cname = name, cvalue = 0, cguid = g\<rparr> # constants ctx\<rparr>)
         \<and> length g = 16
         \<and> (36 \<le> length v \<and> list_all (\<lambda>i. is_hex_digit (v ! i)) guid_digit_positions
              \<longrightarrow> g = grouped_guid_bytes v)
         \<and> (35 \<le> length v \<longrightarrow> guid_to_byte_array v = Some g)
         \<and> (length v < 35 \<longrightarrow> guid_to_byte_array v = None)"
proof -
  let ?m = "xml_text_memory (Some node_value)"
  have g: "g = guid_to_byte_array_beyond ?m v"
    by (simp add: assms(6) guid_to_byte_array_beyond_decode)
  have stored: "(case guid_to_byte_array v of Some b \<Rightarrow> b
                 | None \<Rightarrow> guid_to_byte_array_beyond ?m v) = g"
  proof (cases "35 \<le> length v")
    case True
    then show ?thesis by (simp add: guid_to_byte_array_in_bounds [of v ?m] g)
  next
    case False
    then show ?thesis by (simp add: guid_to_byte_array_cases g)
  qed
  have run: "process_constant node ctx =
           Some (C_SUCCESS,
                 ctx\<lparr>constants :=
                       \<lparr>ctype = CT_GUID, cname = name, cvalue = 0, cguid = g\<rparr> # constants ctx\<rparr>)"
    using assms(1-5) by (simp add: process_constant_def new_constant_def stored)
  have len: "length g = 16"
    by (simp add: assms(6) positional_decode_def)
  have inb: "35 \<le> length v \<longrightarrow> guid_to_byte_array v = Some g"
    by (simp add: guid_to_byte_array_in_bounds [of v ?m] g)
  have grp: "36 \<le> length v \<and> list_all (\<lambda>i. is_hex_digit (v ! i)) guid_digit_positions
              \<longrightarrow> g = grouped_guid_bytes v"
  proof
    assume h: "36 \<le> length v \<and> list_all (\<lambda>i. is_hex_digit (v ! i)) guid_digit_positions"
    then have "guid_to_byte_array v = Some (grouped_guid_bytes v)"
      by (simp add: guid_to_byte_array_grouped)
    moreover from h have "guid_to_byte_array v = Some g"
      by (simp add: guid_to_byte_array_in_bounds [of v ?m] g)
    ultimately show "g = grouped_guid_bytes v" by simp
  qed
  have oob: "length v < 35 \<longrightarrow> guid_to_byte_array v = None"
    by (simp add: guid_to_byte_array_cases)
  from run len grp inb oob show ?thesis by blast
qed

theorem guid_constant_not_validated_witness:
  "process_constant
     (constant_node 4 ''guid'' ''G'' ''0011223344556677889900aabbccddeeffAB and more'')
     (new_context None) =
     Some (C_SUCCESS,
       new_context None\<lparr>constants :=
         [\<lparr>ctype = CT_GUID, cname = ''G'', cvalue = 0,
           cguid = [0x33, 0x22, 0x11, 0x00, 0x56, 0x45, 0x88, 0x77,
                    0x90, 0x0A, 0xBB, 0xCC, 0xDD, 0xEE, 0xFF, 0xAB]\<rparr>]\<rparr>)
   \<and> process_constant (constant_node 4 ''guid'' ''G'' ''1234'') (new_context None) =
     Some (C_SUCCESS,
       new_context None\<lparr>constants :=
         [\<lparr>ctype = CT_GUID, cname = ''G'', cvalue = 0,
           cguid = [0x39, 0x39, 0x34, 0x12, 0x39, 0x39, 0x39, 0x39,
                    0x39, 0x39, 0x39, 0x39, 0x39, 0x39, 0x39, 0x39]\<rparr>]\<rparr>)
   \<and> guid_to_byte_array ''1234'' = None"
proof -
  have a: "unicode_to_ascii (xml_get_node_text
             (xml_get_first_child_by_name (constant_node 4 ''guid'' ''G'' v) ''id'')) =
           Some (Some ''G'')"
    for v
    by (simp add: constant_node_def text_elem_def unicode_to_ascii_def xml_get_node_text_def
          xml_get_first_child_by_name_def)
  have b: "lookup_constant ''G'' CT_INVALID (new_context None) = None"
    by (simp add: lookup_constant_def new_context_def)
  have c: "xmlGetProp (constant_node 4 ''guid'' ''G'' v) ''type'' = Some ''guid''" for v
    by (simp add: constant_node_def)
  have d: "xml_get_first_child_by_name (constant_node 4 ''guid'' ''G'' v) ''value'' =
           Some (text_elem ''value'' 4 v)"
    for v
    by (simp add: constant_node_def text_elem_def xml_get_first_child_by_name_def)
  have e: "xml_get_node_text (Some (text_elem ''value'' 4 v)) = Some v" for v
    by (simp add: text_elem_def xml_get_node_text_def)
  have m: "xml_text_memory (Some (text_elem ''value'' 4 v)) = (\<lambda>k. 0)" for v
    by (simp add: text_elem_def xml_text_memory_def)
  have k: "constants (new_context None) = []"
    by (simp add: new_context_def)
  have g1: "positional_decode (\<lambda>k. 0) ''0011223344556677889900aabbccddeeffAB and more'' =
            [0x33, 0x22, 0x11, 0x00, 0x56, 0x45, 0x88, 0x77,
             0x90, 0x0A, 0xBB, 0xCC, 0xDD, 0xEE, 0xFF, 0xAB]"
    by code_simp
  have g2: "positional_decode (\<lambda>k. 0) ''1234'' =
            [0x39, 0x39, 0x34, 0x12, 0x39, 0x39, 0x39, 0x39,
             0x39, 0x39, 0x39, 0x39, 0x39, 0x39, 0x39, 0x39]"
    by code_simp
  show ?thesis
    using guid_constant_not_validated [OF a b c d e refl,
            of "''0011223344556677889900aabbccddeeffAB and more''"]
          guid_constant_not_validated [OF a b c d e refl, of "''1234''"]
    by (simp add: m g1 g2 k)
qed

section \<open>Literals and symbols\<close>

text \<open>
  Where the resolution follows the stated policy: an accepted integer text and a
  canonical GUID text give their literal value whatever the table holds; a text that
  the literal test rejects is looked up with the expected type; a constant that the
  lookup finds has the name and the type asked for.
\<close>

lemma resolve_integer_literal:
  "is_valid_integer_string (Some t) = Some v \<Longrightarrow>
   lookup_or_convert_to_integer (Some t) ctx = Inr v"
  by (simp add: lookup_or_convert_to_integer_def)

lemma resolve_integer_symbol:
  "is_valid_integer_string (Some t) = None \<Longrightarrow>
   lookup_or_convert_to_integer (Some t) ctx =
     (case lookup_constant t CT_INTEGER ctx of
        Some c \<Rightarrow> Inr (cvalue c)
      | None \<Rightarrow> Inl C_PARSE_ERROR)"
  by (simp add: lookup_or_convert_to_integer_def)

lemma resolve_guid_literal:
  assumes "canonical_guid t"
  shows "lookup_or_convert_to_guid (Some t) ctx = Some (Inr (hex_decode_positions t))"
proof -
  from assms have "length t = 36" by (simp add: canonical_guid_def)
  then show ?thesis
    by (simp add: lookup_or_convert_to_guid_def is_valid_guid_canonical [OF assms]
          guid_to_byte_array_cases del: is_valid_guid.simps)
qed

lemma resolve_guid_symbol:
  assumes "\<not> (36 \<le> length t \<and> canonical_guid (take 36 t))"
  shows "lookup_or_convert_to_guid (Some t) ctx =
           Some (case lookup_constant t CT_GUID ctx of
                   Some c \<Rightarrow> Inr (cguid c)
                 | None \<Rightarrow> Inl C_PARSE_ERROR)"
proof -
  from assms have "is_valid_guid (Some t) = Some False"
    by (simp only: is_valid_guid_prefix)
  then show ?thesis
    by (simp add: lookup_or_convert_to_guid_def del: is_valid_guid.simps split: option.splits)
qed

lemma lookup_constant_found:
  "lookup_constant n k ctx = Some c \<Longrightarrow> cname c = n \<and> (k = CT_INVALID \<or> ctype c = k)"
  by (auto simp: lookup_constant_def find_Some_iff split: if_splits)

lemma lookup_constant_other_kind:
  assumes "k \<noteq> CT_INVALID"
      and "list_all (\<lambda>c. cname c \<noteq> n \<or> ctype c \<noteq> k) (constants ctx)"
  shows "lookup_constant n k ctx = None"
  using assms by (auto simp: lookup_constant_def find_None_iff list_all_iff)

text \<open>
  Claim C6. A text is resolved as an integer or as a GUID by taking its literal value
  when it is a valid literal, without a lookup, and else by looking it up as a symbol
  of the expected kind, with an error when both fail. The GUID resolution departs from
  this on a text that continues after a canonical GUID: such a text is not a GUID
  literal, yet \<open>is_valid_guid\<close> accepts it (the defect of claim C7), so the resolution
  returns the decoded prefix where no symbol of that name exists, and also where a
  GUID symbol of that name exists with another value.
\<close>

theorem lookup_or_convert_to_guid_longer_text:
  "lookup_or_convert_to_guid (Some ''00112233-4455-6677-8899-aabbccddeeffXYZ'')
     (new_context None) =
     Some (Inr [0x33, 0x22, 0x11, 0x00, 0x55, 0x44, 0x77, 0x66,
                0x88, 0x99, 0xAA, 0xBB, 0xCC, 0xDD, 0xEE, 0xFF])
   \<and> lookup_constant ''00112233-4455-6677-8899-aabbccddeeffXYZ'' CT_GUID
         (new_context None) = None
   \<and> lookup_or_convert_to_guid (Some ''00112233-4455-6677-8899-aabbccddeeffXYZ'')
        (new_constant \<lparr>ctype = CT_GUID, cname = ''00112233-4455-6677-8899-aabbccddeeffXYZ'',
                        cvalue = 0, cguid = replicate 16 0xFF\<rparr> (new_context None)) =
     Some (Inr [0x33, 0x22, 0x11, 0x00, 0x55, 0x44, 0x77, 0x66,
                0x88, 0x99, 0xAA, 0xBB, 0xCC, 0xDD, 0xEE, 0xFF])"
  by code_simp

section \<open>Statistics and duplicate constants\<close>

text \<open>
  Claim C1. A declaration that succeeds increments the \<open>successful\<close> counter of its
  category and one that fails the \<open>failed\<close> counter; one valid constant gives the
  constants' counters 1 and 0. The code counts the other way round: the sample
  document, in which the constant, the control and the mapping all succeed (the
  session returns \<open>C_SUCCESS\<close> and logs nothing), leaves every \<open>successful\<close> counter
  at 0 and every \<open>failed\<close> counter at 1.
\<close>

theorem successful_declarations_counted_as_failed:
  "c_add_control_mappings_from_file default_build
      (sample_host sample_document [uvc_device ''video0'' supporting_driver])
      (Some ''logitech.xml'') (Some reporting_info) =
   Some (C_SUCCESS,
     Some \<lparr>flags = {CD_REPORT_ERRORS},
       stats = \<lparr>st_constants = \<lparr>successful = 0, failed = 1\<rparr>,
                st_controls = \<lparr>successful = 0, failed = 1\<rparr>,
                st_mappings = \<lparr>successful = 0, failed = 1\<rparr>\<rparr>,
       messages = []\<rparr>)"
  by code_simp

text \<open>
  Claim C5. Of two constants with the same name the first is declared, the second is
  rejected as a duplicate, logged as an error, dropped and counted as failed, and the
  name still resolves to the first value. The code does all of this but the counting:
  the rejected duplicate increments \<open>successful\<close>. The theorem runs the two turns of
  the loop on the constants \<open>A = 1\<close> and \<open>A = 2\<close>: the second call returns
  \<open>C_PARSE_ERROR\<close> and leaves the table with the first value, and the counters go from
  (0, 1) after the first turn to (1, 1) after the second. With a third constant
  \<open>B = 3\<close> the section ends with one constant counted as successful and two as
  failed, where two were declared and one was rejected.
\<close>

theorem duplicate_constant_counted_as_successful:
  "map_option constant_stats
     (process_constants_step (constant_node 4 ''integer'' ''A'' ''1'')
        (new_context (Some reporting_info))) =
     Some (Some \<lparr>successful = 0, failed = 1\<rparr>)
   \<and> map_option fst
       (Option.bind (process_constants_step (constant_node 4 ''integer'' ''A'' ''1'')
                       (new_context (Some reporting_info)))
          (process_constant (constant_node 5 ''integer'' ''A'' ''2''))) =
     Some C_PARSE_ERROR
   \<and> map_option constant_stats
       (Option.bind (process_constants_step (constant_node 4 ''integer'' ''A'' ''1'')
                       (new_context (Some reporting_info)))
          (process_constants_step (constant_node 5 ''integer'' ''A'' ''2''))) =
     Some (Some \<lparr>successful = 1, failed = 1\<rparr>)
   \<and> map_option (lookup_or_convert_to_integer (Some ''A''))
       (Option.bind (process_constants_step (constant_node 4 ''integer'' ''A'' ''1'')
                       (new_context (Some reporting_info)))
          (process_constants_step (constant_node 5 ''integer'' ''A'' ''2''))) =
     Some (Inr 1)
   \<and> map_option (constant_stats \<circ> snd)
       (process_constants
          (Some (elem ''constants'' 3
             [constant_node 4 ''integer'' ''A'' ''1'', constant_node 5 ''integer'' ''A'' ''2'',
              constant_node 6 ''integer'' ''B'' ''3'']))
          (new_context (Some reporting_info))) =
     Some (Some \<lparr>successful = 1, failed = 2\<rparr>)"
  by code_simp

section \<open>The session over several devices\<close>

text \<open>
  The result of a finished session: "no supported device" when no device was counted,
  and otherwise whatever the last call of \<open>add_control_mappings\<close> returned.
\<close>

lemma session_result_cases:
  "session_result (ctx, n, ret) = (if n = 0 then C_INVALID_DEVICE else ret)"
  by (simp add: session_result_def)

text \<open>
  Claim C3. A session whose loop over the devices finishes returns "no supported
  device" when no device was applied to, and success as soon as one was, whatever
  happened to the others and in whatever order. The code returns success only when
  the device attempted last succeeded: with a device that is applied to followed by
  a device whose probe is refused for lack of privilege, one device is counted as
  successful and the session returns \<open>C_CANNOT_WRITE\<close>.
\<close>

theorem later_failure_overrides_success:
  "map_option fst (c_add_control_mappings_from_file default_build
      (sample_host sample_document
         [uvc_device ''video0'' supporting_driver, uvc_device ''video1'' unprivileged_driver])
      (Some ''logitech.xml'') (Some reporting_info)) = Some C_CANNOT_WRITE
   \<and> map_option (\<lambda>st. fst (snd st)) (device_loop default_build (Some sample_document)
         [uvc_device ''video0'' supporting_driver, uvc_device ''video1'' unprivileged_driver]
         (new_context (Some reporting_info), 0, C_SUCCESS)) = Some 1"
  by code_simp

section \<open>Probing a device\<close>

text \<open>
  Claim C9. When the request that re-declares the brightness control succeeds
  outright, the device counts as not supporting dynamic controls and is skipped, just
  as when the request is rejected for a reason other than "already exists" or missing
  privilege; only "already exists" confirms support. For a device of the \<open>uvcvideo\<close>
  driver that can be opened: in both cases the probe returns \<open>C_NOT_IMPLEMENTED\<close>,
  the document is not processed and the loop goes on with the same message, the
  counter of successful devices unchanged; and for any device the probe returns
  \<open>C_SUCCESS\<close> exactly on "already exists".
\<close>

theorem probe_success_is_not_support:
  assumes "driver dev = ''uvcvideo''" and "c_open_device dev" and "open_v4l2_device dev"
      and "r = ioctl dev (ioctl_calls ctx) (UVCIOC_CTRL_ADD brightness_control)"
      and "io_ret r \<noteq> - 1 \<or> (io_errno r \<noteq> EPERM \<and> io_errno r \<noteq> EEXIST)"
  shows "device_supports_dynctrl dev ctx =
           (C_NOT_IMPLEMENTED, ctx\<lparr>ioctl_calls := ioctl_calls ctx + 1\<rparr>)
         \<and> device_loop cfg xml_doc (dev # rest) (ctx, n, ret) =
             device_loop cfg xml_doc rest
               (add_error (ctx\<lparr>ioctl_calls := ioctl_calls ctx + 1\<rparr>)
                  (''device '' @ quoted (shortName dev) @
                   '' skipped because the driver '' @ quoted (driver dev) @
                   '' behind it does not seem to support dynamic controls.''),
                n, C_NOT_IMPLEMENTED)
         \<and> (fst (device_supports_dynctrl dev' ctx') = C_SUCCESS) =
             (io_ret (ioctl dev' (ioctl_calls ctx') (UVCIOC_CTRL_ADD brightness_control)) = - 1
              \<and> io_errno (ioctl dev' (ioctl_calls ctx') (UVCIOC_CTRL_ADD brightness_control))
                  = EEXIST)"
proof -
  have probe: "device_supports_dynctrl dev ctx =
      (C_NOT_IMPLEMENTED, ctx\<lparr>ioctl_calls := ioctl_calls ctx + 1\<rparr>)"
    using assms(4,5) by (auto simp: device_supports_dynctrl_def do_ioctl_def)
  have skip: "add_control_mappings cfg xml_doc dev ctx =
      Some (C_NOT_IMPLEMENTED, ctx\<lparr>ioctl_calls := ioctl_calls ctx + 1\<rparr>)"
    using assms(3) by (simp add: add_control_mappings_def probe)
  have loop: "device_loop cfg xml_doc (dev # rest) (ctx, n, ret) =
             device_loop cfg xml_doc rest
               (add_error (ctx\<lparr>ioctl_calls := ioctl_calls ctx + 1\<rparr>)
                  (''device '' @ quoted (shortName dev) @
                   '' skipped because the driver '' @ quoted (driver dev) @
                   '' behind it does not seem to support dynamic controls.''),
                n, C_NOT_IMPLEMENTED)"
    using assms(1,2) by (simp add: skip)
  have only: "(fst (device_supports_dynctrl dev' ctx') = C_SUCCESS) =
             (io_ret (ioctl dev' (ioctl_calls ctx') (UVCIOC_CTRL_ADD brightness_control)) = - 1
              \<and> io_errno (ioctl dev' (ioctl_calls ctx') (UVCIOC_CTRL_ADD brightness_control))
                  = EEXIST)"
    by (simp add: device_supports_dynctrl_def do_ioctl_def EPERM_def EEXIST_def)
  from probe loop only show ?thesis by blast
qed

theorem probe_success_is_not_support_witness:
  "fst (device_supports_dynctrl (uvc_device ''video0'' accepting_driver) (new_context None)) =
     C_NOT_IMPLEMENTED
   \<and> device_loop default_build (Some sample_document)
        [uvc_device ''video0'' accepting_driver] (new_context None, 0, C_SUCCESS) =
      Some (new_context None\<lparr>ioctl_calls := 1\<rparr>, 0, C_NOT_IMPLEMENTED)"
proof -
  have a: "driver (uvc_device ''video0'' accepting_driver) = ''uvcvideo''"
    and b: "c_open_device (uvc_device ''video0'' accepting_driver)"
    and c: "open_v4l2_device (uvc_device ''video0'' accepting_driver)"
    by (simp_all add: uvc_device_def)
  have e: "io_ret (accepting_driver 0 (UVCIOC_CTRL_ADD brightness_control)) \<noteq> - 1 \<or>
           (io_errno (accepting_driver 0 (UVCIOC_CTRL_ADD brightness_control)) \<noteq> EPERM \<and>
            io_errno (accepting_driver 0 (UVCIOC_CTRL_ADD brightness_control)) \<noteq> EEXIST)"
    by (simp add: accepting_driver_def)
  have d: "accepting_driver 0 (UVCIOC_CTRL_ADD brightness_control) =
           ioctl (uvc_device ''video0'' accepting_driver) (ioctl_calls (new_context None))
             (UVCIOC_CTRL_ADD brightness_control)"
    by (simp add: uvc_device_def new_context_def)
  show ?thesis
    using probe_success_is_not_support [OF a b c d e, of default_build "Some sample_document"
            "[]" 0 C_SUCCESS]
    by (simp add: new_context_def add_error_def add_message_v_def)
qed


section \<open>The message log and the requests of a control\<close>

lemma add_message_v_append:
  "add_message_v ctx l c sev t =
     append_messages ctx [\<lparr>msg_line = l, msg_col = c, msg_severity = sev, msg_text = t\<rparr>]"
  by (simp add: add_message_v_def append_messages_def)

lemma append_messages_Nil: "append_messages ctx [] = ctx"
  by (simp add: append_messages_def split: option.splits)

lemma append_messages_append:
  "append_messages (append_messages ctx a) b = append_messages ctx (a @ b)"
  by (simp add: append_messages_def split: option.splits)

lemma append_messages_fields:
  "constants (append_messages ctx ms) = constants ctx"
  "controls (append_messages ctx ms) = controls ctx"
  "pass (append_messages ctx ms) = pass ctx"
  "ioctl_calls (append_messages ctx ms) = ioctl_calls ctx"
  "reporting (append_messages ctx ms) = reporting ctx"
  "message_log (append_messages ctx ms) = message_log ctx @ (if reporting ctx then ms else [])"
  by (simp_all add: append_messages_def reporting_def message_log_def split: option.splits)

lemma process_requests_eq:
  "process_requests rs (fl, ctx) =
     (foldl or fl (map request_flag rs),
      append_messages ctx (map invalid_request_message (filter (\<lambda>n. request_flag n = 0) rs)))"
proof (induction rs arbitrary: fl ctx)
  case Nil
  show ?case by (simp add: append_messages_Nil)
next
  case (Cons n rs)
  show ?case
    by (simp add: Cons.IH Let_def request_flag_def [symmetric] add_error_at_node_def
          add_message_v_append append_messages_append invalid_request_message_def)
qed

lemma request_flag_zero_iff: "(request_flag n = 0) = (\<not> recognised_request n)"
  by (auto simp: request_flag_def recognised_request_def get_uvc_request_by_name_def
        UVC_CTRL_FLAG_SET_CUR_def UVC_CTRL_FLAG_GET_CUR_def UVC_CTRL_FLAG_GET_MIN_def
        UVC_CTRL_FLAG_GET_MAX_def UVC_CTRL_FLAG_GET_RES_def UVC_CTRL_FLAG_GET_DEF_def
        split: option.splits)

text \<open>
  What \<open>process_control\<close> does with a declaration whose identifier, entity, selector,
  index and size are accepted and whose \<open>requests\<close> list is present.
\<close>

lemma process_control_valid:
  assumes "xmlGetProp node ''id'' = Some ident"
      and "lookup_or_convert_to_guid
             (xml_get_node_text (xml_get_first_child_by_name node ''entity'')) ctx =
           Some (Inr entity)"
      and "lookup_or_convert_to_integer
             (xml_get_node_text (xml_get_first_child_by_name node ''selector'')) ctx = Inr sel"
      and "lookup_or_convert_to_integer
             (xml_get_node_text (xml_get_first_child_by_name node ''index'')) ctx = Inr idx"
      and "lookup_or_convert_to_integer
             (xml_get_node_text (xml_get_first_child_by_name node ''size'')) ctx = Inr sz"
      and "is_valid_size sz 0xFFFF"
      and "xml_get_first_child_by_name node ''requests'' = Some node_requests"
      and "rs = xml_children_by_name node_requests ''request''"
      and "xu = \<lparr>xu_id = ident,
                 xu_info = \<lparr>ci_entity = entity, ci_index = word_of_int idx,
                   ci_selector = word_of_int sel, ci_size = word_of_int sz,
                   ci_flags = or (foldl or 0 (map request_flag rs)) UVC_CTRL_FLAG_AUTO_UPDATE\<rparr>\<rparr>"
      and "r = ioctl dev (ioctl_calls ctx) (UVCIOC_CTRL_ADD (xu_info xu))"
      and "bad = ioctl_failed cfg ctx r"
  shows "process_control cfg dev node ctx =
           Some (if bad then C_V4L2_ERROR else C_SUCCESS,
                 (append_messages ctx
                    (map invalid_request_message (filter (\<lambda>n. \<not> recognised_request n) rs) @
                     (if bad then [add_control_failure_message cfg dev (xu_info xu) r] else [])))
                 \<lparr>ioctl_calls := ioctl_calls ctx + 1, controls := xu # controls ctx\<rparr>)"
proof -
  have failed_cong: "ioctl_failed cfg (c\<lparr>ioctl_calls := k\<rparr>) r = ioctl_failed cfg c r"
    "ioctl_failed cfg (append_messages c ms) r = ioctl_failed cfg c r" for c k r ms
    by (simp_all add: ioctl_failed_def append_messages_fields)
  have upd: "(append_messages c ms)\<lparr>ioctl_calls := k\<rparr> = append_messages (c\<lparr>ioctl_calls := k\<rparr>) ms"
    for c ms k
    by (simp add: append_messages_def split: option.splits)
  show ?thesis
    using assms(1-7)
    unfolding process_control_def
    by (simp add: Let_def process_requests_eq do_ioctl_def add_error_def add_message_v_append
          append_messages_fields failed_cong upd append_messages_append assms(8-11)
          request_flag_zero_iff add_control_failure_message_def append_messages_Nil)
qed

section \<open>Unrecognised requests of a control\<close>





section \<open>What a pass changes\<close>

lemma lookup_or_convert_to_guid_returns: "lookup_or_convert_to_guid t ctx \<noteq> None"
proof (cases t)
  case None
  then show ?thesis by (simp add: lookup_or_convert_to_guid_def)
next
  case (Some s)
  show ?thesis
  proof (cases "36 \<le> length s \<and> canonical_guid (take 36 s)")
    case True
    then have "guid_to_byte_array s \<noteq> None" by (simp add: guid_to_byte_array_cases)
    with True Some show ?thesis
      by (simp only: lookup_or_convert_to_guid_def is_valid_guid_prefix) auto
  next
    case False
    with Some show ?thesis
      by (simp only: lookup_or_convert_to_guid_def is_valid_guid_prefix)
         (auto split: option.splits)
  qed
qed

lemma lookup_constant_cong:
  "constants c = constants c' \<Longrightarrow> lookup_constant n k c = lookup_constant n k c'"
  by (simp add: lookup_constant_def)

lemma lookup_or_convert_cong:
  assumes "constants c = constants c'"
  shows "lookup_or_convert_to_integer t c = lookup_or_convert_to_integer t c'"
    and "lookup_or_convert_to_guid t c = lookup_or_convert_to_guid t c'"
  unfolding lookup_or_convert_to_integer_def lookup_or_convert_to_guid_def
    lookup_constant_cong [OF assms, of _ CT_INTEGER] lookup_constant_cong [OF assms, of _ CT_GUID]
  by simp_all

lemma control_valid_cong:
  "constants c = constants c' \<Longrightarrow> control_valid c n = control_valid c' n"
  unfolding control_valid_def by (simp only: lookup_or_convert_cong [of c c'])

lemma control_entry_cong:
  "constants c = constants c' \<Longrightarrow> control_entry c n = control_entry c' n"
  unfolding control_entry_def by (simp only: lookup_or_convert_cong [of c c'])

lemma pass_entries_cong:
  assumes "constants c = constants c'"
  shows "pass_entries c root = pass_entries c' root"
proof -
  have "control_valid c = control_valid c'"
    by (rule ext, rule control_valid_cong, rule assms)
  moreover have "control_entry c = control_entry c'"
    by (rule ext, rule control_entry_cong, rule assms)
  ultimately show ?thesis by (simp add: pass_entries_def)
qed

lemma count_fields:
  "constants (count_control r c) = constants c" "controls (count_control r c) = controls c"
  "pass (count_control r c) = pass c"
  "constants (count_mapping r c) = constants c" "controls (count_mapping r c) = controls c"
  "pass (count_mapping r c) = pass c"
  "constants (count_constant r c) = constants c" "controls (count_constant r c) = controls c"
  "pass (count_constant r c) = pass c"
  by (simp_all add: count_control_def count_mapping_def count_constant_def split: option.splits)

lemma add_message_fields:
  "constants (add_error_at_node c n t) = constants c"
  "controls (add_error_at_node c n t) = controls c"
  "pass (add_error_at_node c n t) = pass c"
  "constants (add_error c t) = constants c" "controls (add_error c t) = controls c"
  "pass (add_error c t) = pass c"
  "constants (add_info c t) = constants c" "controls (add_info c t) = controls c"
  "pass (add_info c t) = pass c"
  by (simp_all add: add_error_at_node_def add_error_def add_info_def add_message_v_append
        append_messages_fields)

lemma pass_entries_add_message:
  "pass_entries (add_info c t) root = pass_entries c root"
  "pass_entries (add_error c t) root = pass_entries c root"
  by (rule pass_entries_cong, simp add: add_message_fields)+

text \<open>
  \<open>process_control\<close> always returns and leaves the constants and the pass counter
  alone. A declaration that passes the checks is sent to the driver, the request
  counter advancing by one and the driver's answer to exactly this request deciding
  the result, and its entry is put at the head of the registry, whatever the pass and
  whatever the driver answers; any other declaration changes neither.
\<close>

lemma process_control_effect:
  "\<exists>ret ctx'. process_control cfg dev node ctx = Some (ret, ctx')
      \<and> constants ctx' = constants ctx \<and> pass ctx' = pass ctx
      \<and> controls ctx' =
          (if control_valid ctx node then [control_entry ctx node] else []) @ controls ctx
      \<and> ioctl_calls ctx' = ioctl_calls ctx + (if control_valid ctx node then 1 else 0)
      \<and> (if control_valid ctx node
          then (ret = C_V4L2_ERROR) =
                 ioctl_failed cfg ctx
                   (ioctl dev (ioctl_calls ctx)
                      (UVCIOC_CTRL_ADD (xu_info (control_entry ctx node))))
               \<and> (ret = C_SUCCESS \<or> ret = C_V4L2_ERROR)
          else True)"
proof (cases "control_valid ctx node")
  case True
  then obtain ident entity sel idx sz nr where h:
    "xmlGetProp node ''id'' = Some ident"
    "lookup_or_convert_to_guid
       (xml_get_node_text (xml_get_first_child_by_name node ''entity'')) ctx = Some (Inr entity)"
    "lookup_or_convert_to_integer
       (xml_get_node_text (xml_get_first_child_by_name node ''selector'')) ctx = Inr sel"
    "lookup_or_convert_to_integer
       (xml_get_node_text (xml_get_first_child_by_name node ''index'')) ctx = Inr idx"
    "lookup_or_convert_to_integer
       (xml_get_node_text (xml_get_first_child_by_name node ''size'')) ctx = Inr sz"
    "is_valid_size sz 0xFFFF"
    "xml_get_first_child_by_name node ''requests'' = Some nr"
    by (auto simp: control_valid_def split: option.splits sum.splits)
  have entry: "control_entry ctx node =
      \<lparr>xu_id = ident,
       xu_info = \<lparr>ci_entity = entity, ci_index = word_of_int idx,
         ci_selector = word_of_int sel, ci_size = word_of_int sz,
         ci_flags = or (foldl or 0 (map request_flag (xml_children_by_name nr ''request'')))
                       UVC_CTRL_FLAG_AUTO_UPDATE\<rparr>\<rparr>"
    by (simp add: control_entry_def control_request_nodes_def h)
  show ?thesis
    using True
    by (simp add: process_control_valid [OF h refl entry refl refl] append_messages_fields)
next
  case False
  have "lookup_or_convert_to_guid
       (xml_get_node_text (xml_get_first_child_by_name node ''entity'')) ctx \<noteq> None"
    by (rule lookup_or_convert_to_guid_returns)
  with False show ?thesis
    by (auto simp: process_control_def control_valid_def Let_def add_message_fields
          add_error_at_node_def add_message_v_append append_messages_fields
          split: option.splits sum.splits)
qed

lemma process_controls_loop_effect:
  "\<exists>ctx'. process_controls_loop cfg dev ns ctx = Some ctx'
      \<and> constants ctx' = constants ctx \<and> pass ctx' = pass ctx
      \<and> controls ctx' =
          rev (map (control_entry ctx) (filter (control_valid ctx) ns)) @ controls ctx"
proof (induction ns arbitrary: ctx)
  case Nil
  show ?case by simp
next
  case (Cons n ns)
  obtain ret ctx1 where step: "process_control cfg dev n ctx = Some (ret, ctx1)"
    and c1: "constants ctx1 = constants ctx" "pass ctx1 = pass ctx"
    and l1: "controls ctx1 =
             (if control_valid ctx n then [control_entry ctx n] else []) @ controls ctx"
    using process_control_effect [of cfg dev n ctx] by blast
  let ?c = "count_control ret ctx1"
  obtain ctx' where rest: "process_controls_loop cfg dev ns ?c = Some ctx'"
    and c2: "constants ctx' = constants ?c" "pass ctx' = pass ?c"
    and l2: "controls ctx' =
             rev (map (control_entry ?c) (filter (control_valid ?c) ns)) @ controls ?c"
    using Cons.IH [of ?c] by blast
  have same: "control_valid ?c = control_valid ctx" "control_entry ?c = control_entry ctx"
    by (rule ext, rule control_valid_cong, simp add: count_fields c1)
       (rule ext, rule control_entry_cong, simp add: count_fields c1)
  show ?case
    using step rest c1 c2 l1 l2 by (simp add: count_fields same)
qed

lemma process_device_effect:
  "\<exists>ctx'. process_device cfg dev n ctx = Some ctx'
      \<and> constants ctx' = constants ctx \<and> pass ctx' = pass ctx
      \<and> controls ctx' =
          rev (map (control_entry ctx) (filter (control_valid ctx) (device_control_nodes n)))
          @ controls ctx"
  using process_controls_loop_effect [of cfg dev _ ctx]
  by (simp add: process_device_def process_controls_def device_control_nodes_def
        split: option.splits)

lemma process_device_loop_effect:
  "\<exists>ctx'. process_device_loop cfg dev ns ctx = Some ctx'
      \<and> constants ctx' = constants ctx \<and> pass ctx' = pass ctx
      \<and> controls ctx' =
          rev (map (control_entry ctx)
                 (filter (control_valid ctx) (concat (map device_control_nodes ns))))
          @ controls ctx"
proof (induction ns arbitrary: ctx)
  case Nil
  show ?case by simp
next
  case (Cons n ns)
  obtain ctx1 where step: "process_device cfg dev n ctx = Some ctx1"
    and c1: "constants ctx1 = constants ctx" "pass ctx1 = pass ctx"
    and l1: "controls ctx1 =
             rev (map (control_entry ctx) (filter (control_valid ctx) (device_control_nodes n)))
             @ controls ctx"
    using process_device_effect [of cfg dev n ctx] by blast
  obtain ctx' where rest: "process_device_loop cfg dev ns ctx1 = Some ctx'"
    and c2: "constants ctx' = constants ctx1" "pass ctx' = pass ctx1"
    and l2: "controls ctx' =
             rev (map (control_entry ctx1)
                    (filter (control_valid ctx1) (concat (map device_control_nodes ns))))
             @ controls ctx1"
    using Cons.IH [of ctx1] by blast
  have same: "control_valid ctx1 = control_valid ctx" "control_entry ctx1 = control_entry ctx"
    by (rule ext, rule control_valid_cong, simp add: c1)
       (rule ext, rule control_entry_cong, simp add: c1)
  show ?case
    using step rest c1 c2 l1 l2 by (simp add: same)
qed

lemma process_devices_loop_effect:
  "\<exists>ctx'. process_devices_loop cfg dev ns ctx = Some ctx'
      \<and> constants ctx' = constants ctx \<and> pass ctx' = pass ctx
      \<and> controls ctx' =
          rev (map (control_entry ctx)
                 (filter (control_valid ctx)
                    (concat (map (\<lambda>node_devices.
                                    concat (map device_control_nodes
                                              (xml_children_by_name node_devices ''device'')))
                               ns))))
          @ controls ctx"
proof (induction ns arbitrary: ctx)
  case Nil
  show ?case by simp
next
  case (Cons n ns)
  obtain ctx1 where step: "process_devices cfg dev n ctx = Some ctx1"
    and c1: "constants ctx1 = constants ctx" "pass ctx1 = pass ctx"
    and l1: "controls ctx1 =
             rev (map (control_entry ctx)
                    (filter (control_valid ctx)
                       (concat (map device_control_nodes (xml_children_by_name n ''device'')))))
             @ controls ctx"
    using process_device_loop_effect [of cfg dev "xml_children_by_name n ''device''" ctx]
    by (auto simp: process_devices_def)
  obtain ctx' where rest: "process_devices_loop cfg dev ns ctx1 = Some ctx'"
    and c2: "constants ctx' = constants ctx1" "pass ctx' = pass ctx1"
    and l2: "controls ctx' =
             rev (map (control_entry ctx1)
                    (filter (control_valid ctx1)
                       (concat (map (\<lambda>node_devices.
                                       concat (map device_control_nodes
                                                 (xml_children_by_name node_devices ''device'')))
                                  ns))))
             @ controls ctx1"
    using Cons.IH [of ctx1] by blast
  have same: "control_valid ctx1 = control_valid ctx" "control_entry ctx1 = control_entry ctx"
    by (rule ext, rule control_valid_cong, simp add: c1)
       (rule ext, rule control_entry_cong, simp add: c1)
  show ?case
    using step rest c1 c2 l1 l2 by (simp add: same)
qed

lemma process_mapping_fields:
  "process_mapping cfg dev n c = Some (r, c') \<Longrightarrow>
   constants c' = constants c \<and> controls c' = controls c \<and> pass c' = pass c"
  by (auto simp: process_mapping_def Let_def add_message_fields do_ioctl_def
        split: option.splits sum.splits prod.splits if_splits)

lemma process_mappings_loop_fields:
  "process_mappings_loop cfg dev ns c = Some c' \<Longrightarrow>
   constants c' = constants c \<and> controls c' = controls c \<and> pass c' = pass c"
proof (induction ns arbitrary: c)
  case Nil
  then show ?case by simp
next
  case (Cons n ns)
  from Cons.prems obtain ret c1 where
    p: "process_mapping cfg dev n c = Some (ret, c1)"
    and rest: "process_mappings_loop cfg dev ns (count_mapping ret c1) = Some c'"
    by (auto split: option.splits)
  from Cons.IH [OF rest] process_mapping_fields [OF p] show ?case
    by (simp add: count_fields)
qed

lemma process_constant_fields:
  "process_constant n c = Some (r, c') \<Longrightarrow> controls c' = controls c \<and> pass c' = pass c"
  by (auto simp: process_constant_def Let_def add_message_fields new_constant_def
        split: option.splits if_splits ConstantType.splits)

lemma process_constants_loop_fields:
  "process_constants_loop ns c = Some c' \<Longrightarrow> controls c' = controls c \<and> pass c' = pass c"
proof (induction ns arbitrary: c)
  case Nil
  then show ?case by simp
next
  case (Cons n ns)
  from Cons.prems obtain r c1 where
    p: "process_constant n c = Some (r, c1)"
    and rest: "process_constants_loop ns (count_constant r c1) = Some c'"
    by (auto simp: process_constants_step_def split: option.splits)
  from Cons.IH [OF rest] process_constant_fields [OF p] show ?case
    by (simp add: count_fields)
qed

lemma process_first_pass_effect:
  assumes "process_first_pass root c = Some (r, c')"
  shows "r = C_SUCCESS \<and> controls c' = controls c \<and> pass c' = pass c
         \<and> (if pass c = 1 then True else c' = c)"
  using assms process_constants_loop_fields [of _ c c']
  by (auto simp: process_first_pass_def process_meta_def process_constants_def
        split: if_splits option.splits)

text \<open>
  A pass that returns has advanced the pass counter by one and put the entries of the
  valid control declarations in front of the registry; only the first pass touches
  the constants.
\<close>

lemma process_dynctrl_doc_effect:
  assumes "process_dynctrl_doc cfg dev (Some root) c = Some (r, c')"
  shows "r = C_SUCCESS \<and> pass c' = pass c + 1
         \<and> controls c' = pass_entries c' root @ controls c
         \<and> (if pass c = 0 then True else constants c' = constants c)"
proof -
  let ?c0 = "c\<lparr>pass := pass c + 1\<rparr>"
  from assms obtain r1 c1 where
    fp: "process_first_pass root ?c0 = Some (r1, c1)"
    by (auto simp: process_dynctrl_doc_def split: option.splits)
  from process_first_pass_effect [OF fp]
  have r1: "r1 = C_SUCCESS" and f1: "controls c1 = controls c" "pass c1 = pass c + 1"
    and k1: "if pass c + 1 = 1 then True else c1 = ?c0"
    by simp_all
  obtain c2 where
    dl: "process_devices_loop cfg dev (xml_children_by_name root ''devices'') c1 = Some c2"
    and f2: "constants c2 = constants c1" "pass c2 = pass c1"
    and l2: "controls c2 = pass_entries c1 root @ controls c1"
    using process_devices_loop_effect [of cfg dev "xml_children_by_name root ''devices''" c1]
    by (auto simp: control_nodes_def pass_entries_def)
  from assms fp r1 dl obtain nm where
    res: "r = C_SUCCESS"
      "process_mappings_loop cfg dev (xml_children_by_name nm ''mapping'') c2 = Some c'"
    by (auto simp: process_dynctrl_doc_def process_mappings_def split: option.splits)
  note f3 = process_mappings_loop_fields [OF res(2)]
  have same: "pass_entries c' root = pass_entries c1 root"
    by (rule pass_entries_cong) (simp add: f3 f2)
  have kept: "if pass c = 0 then True else constants c' = constants c"
    using k1 f2 f3 by (auto split: if_splits)
  have "pass c' = pass c + 1"
    using f1 f2 f3 by simp
  moreover have "controls c' = pass_entries c' root @ controls c"
    unfolding same using f1 l2 f3 by simp
  ultimately show ?thesis
    using res(1) kept by simp
qed

text \<open>
  For any device, \<open>add_control_mappings\<close> either makes a pass and returns
  \<open>C_SUCCESS\<close>, or returns another code and leaves pass counter, registry and
  constants as they were.
\<close>

lemma add_control_mappings_effect:
  assumes "add_control_mappings cfg (Some root) dev c = Some (r, c')"
  shows "(r = C_SUCCESS \<and> pass c' = pass c + 1
            \<and> controls c' = pass_entries c' root @ controls c
            \<and> (if pass c = 0 then True else constants c' = constants c))
         \<or> (r \<noteq> C_SUCCESS \<and> pass c' = pass c \<and> controls c' = controls c
            \<and> constants c' = constants c)"
proof (cases "open_v4l2_device dev")
  case False
  with assms show ?thesis by (auto simp: add_control_mappings_def)
next
  case True
  obtain r0 c0 where probe: "device_supports_dynctrl dev c = (r0, c0)"
    by (cases "device_supports_dynctrl dev c")
  then have c0: "c0 = c\<lparr>ioctl_calls := ioctl_calls c + 1\<rparr>"
    by (auto simp: device_supports_dynctrl_def do_ioctl_def Let_def)
  show ?thesis
  proof (cases "r0 = C_SUCCESS")
    case False
    with assms True probe c0 show ?thesis by (auto simp: add_control_mappings_def)
  next
    case ok: True
    with assms True probe have "process_dynctrl_doc cfg dev (Some root) c0 = Some (r, c')"
      by (simp add: add_control_mappings_def)
    from process_dynctrl_doc_effect [OF this] show ?thesis by (simp add: c0)
  qed
qed

lemma add_control_mappings_supporting:
  assumes "supporting dev"
      and "add_control_mappings cfg (Some root) dev c = Some (r, c')"
  shows "r = C_SUCCESS"
proof -
  from assms(1) have probe:
    "device_supports_dynctrl dev c = (C_SUCCESS, c\<lparr>ioctl_calls := ioctl_calls c + 1\<rparr>)"
    by (simp add: supporting_def device_supports_dynctrl_def do_ioctl_def EPERM_def EEXIST_def)
  from assms have
    "process_dynctrl_doc cfg dev (Some root) (c\<lparr>ioctl_calls := ioctl_calls c + 1\<rparr>) =
       Some (r, c')"
    by (simp add: add_control_mappings_def probe supporting_def)
  from process_dynctrl_doc_effect [OF this] show ?thesis by simp
qed

text \<open>
  The loop over the devices keeps the registry equal to as many copies of the
  entries of one pass as passes were made, and counts the passes in
  \<open>successful_devices\<close>.
\<close>

lemma device_loop_registry:
  assumes "device_loop cfg (Some root) ds (c, n, r) = Some (c', n', r')"
      and "pass c = n" and "0 \<le> n"
      and "controls c = concat (replicate (nat n) (pass_entries c root))"
  shows "pass c' = n' \<and> n \<le> n'
         \<and> controls c' = concat (replicate (nat n') (pass_entries c' root))"
  using assms
proof (induction ds arbitrary: c n r)
  case Nil
  then show ?case by simp
next
  case (Cons d ds)
  show ?case
  proof (cases "driver d \<noteq> ''uvcvideo''")
    case True
    let ?c = "add_info c (''device '' @ quoted (shortName d) @
                          '' skipped because it is not a UVC device.'')"
    from Cons.prems(1) True have
      rest: "device_loop cfg (Some root) ds (?c, n, r) = Some (c', n', r')" by simp
    from Cons.IH [OF rest] Cons.prems(2-4) show ?thesis
      by (simp add: add_message_fields pass_entries_add_message)
  next
    case uvc: False
    show ?thesis
    proof (cases "c_open_device d")
      case False
      let ?c = "add_error c (''device '' @ quoted (shortName d) @
                             '' skipped because it could not be opened.'')"
      from Cons.prems(1) uvc False have
        rest: "device_loop cfg (Some root) ds (?c, n, r) = Some (c', n', r')" by simp
      from Cons.IH [OF rest] Cons.prems(2-4) show ?thesis
        by (simp add: add_message_fields pass_entries_add_message)
    next
      case opened: True
      from Cons.prems(1) uvc opened obtain r1 c1 where
        acm: "add_control_mappings cfg (Some root) d c = Some (r1, c1)"
        by (auto split: option.splits)
      from add_control_mappings_effect [OF acm] show ?thesis
      proof
        assume applied: "r1 = C_SUCCESS \<and> pass c1 = pass c + 1
            \<and> controls c1 = pass_entries c1 root @ controls c
            \<and> (if pass c = 0 then True else constants c1 = constants c)"
        from Cons.prems(1) uvc opened acm applied have
          rest: "device_loop cfg (Some root) ds (c1, n + 1, r1) = Some (c', n', r')"
          by simp
        have p1: "pass c1 = n + 1" "0 \<le> n + 1"
          using applied Cons.prems(2,3) by simp_all
        have reg: "controls c1 = concat (replicate (nat (n + 1)) (pass_entries c1 root))"
        proof (cases "n = 0")
          case True
          with Cons.prems(4) applied show ?thesis by simp
        next
          case False
          with Cons.prems(2) applied have "constants c1 = constants c" by simp
          then have pe: "pass_entries c1 root = pass_entries c root"
            by (rule pass_entries_cong)
          from Cons.prems(3) have "nat (n + 1) = Suc (nat n)" by simp
          with applied Cons.prems(4) pe show ?thesis by simp
        qed
        from Cons.IH [OF rest p1 reg] show ?thesis by simp
      next
        assume skipped: "r1 \<noteq> C_SUCCESS \<and> pass c1 = pass c \<and> controls c1 = controls c
            \<and> constants c1 = constants c"
        have fields: "pass (add_error c1 t) = n"
          "controls (add_error c1 t) = concat (replicate (nat n) (pass_entries (add_error c1 t) root))"
          for t
        proof -
          show "pass (add_error c1 t) = n"
            using skipped Cons.prems(2) by (simp add: add_message_fields)
          have "pass_entries (add_error c1 t) root = pass_entries c root"
            by (rule pass_entries_cong) (simp add: add_message_fields skipped)
          then show "controls (add_error c1 t) =
              concat (replicate (nat n) (pass_entries (add_error c1 t) root))"
            using skipped Cons.prems(4) by (simp add: add_message_fields)
        qed
        from Cons.prems(1) uvc opened acm skipped obtain t where
          rest: "device_loop cfg (Some root) ds (add_error c1 t, n, r1) = Some (c', n', r')"
          by (auto split: if_splits)
        from Cons.IH [OF rest fields(1) Cons.prems(3) fields(2)] show ?thesis by simp
      qed
    qed
  qed
qed

lemma device_loop_supporting:
  assumes "list_all supporting ds"
      and "device_loop cfg (Some root) ds (c, n, r) = Some (c', n', r')"
  shows "n' = n + int (length ds)"
  using assms
proof (induction ds arbitrary: c n r)
  case Nil
  then show ?case by simp
next
  case (Cons d ds)
  from Cons.prems(1) have sd: "supporting d" and sds: "list_all supporting ds" by simp_all
  from sd have drv: "driver d = ''uvcvideo''" "c_open_device d" by (simp_all add: supporting_def)
  from Cons.prems(2) drv obtain r1 c1 where
    acm: "add_control_mappings cfg (Some root) d c = Some (r1, c1)"
    by (auto split: option.splits)
  from add_control_mappings_supporting [OF sd acm] have ok: "r1 = C_SUCCESS" .
  from Cons.prems(2) drv acm ok have
    rest: "device_loop cfg (Some root) ds (c1, n + 1, C_SUCCESS) = Some (c', n', r')"
    by simp
  from Cons.IH [OF sds rest] show ?case by simp
qed

section \<open>The registry over the passes of a session\<close>

text \<open>
  Claim C2, as the specification has it: a control declaration is entered into the
  registry only in the first pass that meets it, so that after N passes over a
  document with one control declaration the registry holds exactly one entry. It
  fails on the code: after the two passes of a session over two supporting devices
  the registry of the sample document, which has one control declaration, holds two
  entries.
\<close>

theorem registry_single_entry_counterexample:
  "length (control_nodes sample_document) = 1
   \<and> map_option (length \<circ> controls \<circ> fst)
       (device_loop default_build (Some sample_document)
          [uvc_device ''video0'' supporting_driver, uvc_device ''video1'' supporting_driver]
          (new_context (Some reporting_info), 0, C_SUCCESS)) = Some 2"
  by code_simp

text \<open>
  Claim C2, amended. In every pass, whatever its number, \<open>process_control\<close> returns
  and, for a control declaration that passes the checks, sends the request to add the
  control of the declaration to the device (one more request, whose answer decides
  between \<open>C_SUCCESS\<close> and \<open>C_V4L2_ERROR\<close>) and inserts the entry of the declaration
  at the head of the registry; a declaration that fails the checks leaves the registry
  and the device alone. Hence, when the loop of a session over the devices has
  finished after N passes (N devices for devices that all support dynamic controls),
  the registry consists of N copies of the entries of one pass, and of exactly N
  entries of the declaration for a document with one valid control declaration.
  (Validity and entry are judged against the constants of the document, which only
  the first pass declares.)
\<close>

theorem registry_grows_with_every_pass:
  assumes "device_loop cfg (Some root) ds (new_context i, 0, C_SUCCESS) = Some (ctx', n, r)"
  shows "(\<exists>ret ctx1. process_control cfg dev node ctx = Some (ret, ctx1)
            \<and> controls ctx1 =
                (if control_valid ctx node then [control_entry ctx node] else []) @ controls ctx
            \<and> ioctl_calls ctx1 = ioctl_calls ctx + (if control_valid ctx node then 1 else 0)
            \<and> (if control_valid ctx node
                then (ret = C_V4L2_ERROR) =
                       ioctl_failed cfg ctx
                         (ioctl dev (ioctl_calls ctx)
                            (UVCIOC_CTRL_ADD (xu_info (control_entry ctx node))))
                     \<and> (ret = C_SUCCESS \<or> ret = C_V4L2_ERROR)
                else True))
         \<and> pass ctx' = n \<and> 0 \<le> n
         \<and> (list_all supporting ds \<longrightarrow> n = int (length ds))
         \<and> controls ctx' = concat (replicate (nat n) (pass_entries ctx' root))
         \<and> (filter (control_valid ctx') (control_nodes root) = [decl] \<longrightarrow>
              controls ctx' = replicate (nat n) (control_entry ctx' decl))"
proof -
  have start: "pass (new_context i) = 0" "(0::int) \<le> 0"
    "controls (new_context i) = concat (replicate (nat 0) (pass_entries (new_context i) root))"
    by (simp_all add: new_context_def)
  note reg = device_loop_registry [OF assms start]
  have one: "controls ctx' = replicate (nat n) (control_entry ctx' decl)"
    if "filter (control_valid ctx') (control_nodes root) = [decl]"
  proof -
    from that have "pass_entries ctx' root = [control_entry ctx' decl]"
      by (simp add: pass_entries_def)
    with reg have "controls ctx' = concat (replicate (nat n) [control_entry ctx' decl])"
      by simp
    also have "\<dots> = replicate (nat n) (control_entry ctx' decl)"
      by (induction "nat n") simp_all
    finally show ?thesis .
  qed
  have count: "n = int (length ds)" if "list_all supporting ds"
    using device_loop_supporting [OF that assms] by simp
  from process_control_effect [of cfg dev node ctx]
  have "\<exists>ret ctx1. process_control cfg dev node ctx = Some (ret, ctx1)
            \<and> controls ctx1 =
                (if control_valid ctx node then [control_entry ctx node] else []) @ controls ctx
            \<and> ioctl_calls ctx1 = ioctl_calls ctx + (if control_valid ctx node then 1 else 0)
            \<and> (if control_valid ctx node
                then (ret = C_V4L2_ERROR) =
                       ioctl_failed cfg ctx
                         (ioctl dev (ioctl_calls ctx)
                            (UVCIOC_CTRL_ADD (xu_info (control_entry ctx node))))
                     \<and> (ret = C_SUCCESS \<or> ret = C_V4L2_ERROR)
                else True)"
    by blast
  with reg one count show ?thesis by blast
qed

theorem registry_grows_with_every_pass_witness:
  "\<exists>ctx' n r decl.
      device_loop default_build (Some sample_document)
        [uvc_device ''video0'' supporting_driver, uvc_device ''video1'' supporting_driver,
         uvc_device ''video2'' supporting_driver]
        (new_context (Some reporting_info), 0, C_SUCCESS) = Some (ctx', n, r)
      \<and> list_all supporting
          [uvc_device ''video0'' supporting_driver, uvc_device ''video1'' supporting_driver,
           uvc_device ''video2'' supporting_driver]
      \<and> n = 3 \<and> pass ctx' = 3
      \<and> filter (control_valid ctx') (control_nodes sample_document) = [decl]
      \<and> controls ctx' = replicate 3 (control_entry ctx' decl)
      \<and> map xu_id (controls ctx') = [''ctrl_pan'', ''ctrl_pan'', ''ctrl_pan'']
      \<and> (\<exists>ret ctx1.
            process_control default_build (uvc_device ''video3'' accepting_driver) decl ctx' =
              Some (ret, ctx1)
            \<and> controls ctx1 = control_entry ctx' decl # controls ctx'
            \<and> ioctl_calls ctx1 = ioctl_calls ctx' + 1
            \<and> ret = C_SUCCESS)"
proof -
  let ?ds = "[uvc_device ''video0'' supporting_driver, uvc_device ''video1'' supporting_driver,
              uvc_device ''video2'' supporting_driver]"
  let ?run = "device_loop default_build (Some sample_document) ?ds
                (new_context (Some reporting_info), 0, C_SUCCESS)"
  let ?dev = "uvc_device ''video3'' accepting_driver"
  have sup: "list_all supporting ?ds"
    by (simp add: supporting_def uvc_device_def supporting_driver_def)
  have ids: "map_option (\<lambda>x. (map xu_id (controls (fst x)),
                               map (control_valid (fst x)) (control_nodes sample_document)))
               ?run = Some ([''ctrl_pan'', ''ctrl_pan'', ''ctrl_pan''], [True])"
    by code_simp
  have len: "length (control_nodes sample_document) = 1"
    by code_simp
  from ids obtain ctx' n r where run: "?run = Some (ctx', n, r)"
    and i3: "map xu_id (controls ctx') = [''ctrl_pan'', ''ctrl_pan'', ''ctrl_pan'']"
    and v: "map (control_valid ctx') (control_nodes sample_document) = [True]"
    by (cases ?run) auto
  from len obtain decl where nodes: "control_nodes sample_document = [decl]"
    by (cases "control_nodes sample_document") auto
  with v have valid: "control_valid ctx' decl"
    and single: "filter (control_valid ctx') (control_nodes sample_document) = [decl]"
    by simp_all
  have accepted: "\<not> ioctl_failed default_build ctx' (ioctl ?dev k req)" for k req
    by (simp add: ioctl_failed_def uvc_device_def accepting_driver_def)
  note inst = registry_grows_with_every_pass [OF run, of ?dev decl ctx' decl]
  from inst sup have n3: "n = 3" "pass ctx' = 3" by simp_all
  from inst single have "controls ctx' = replicate (nat n) (control_entry ctx' decl)"
    by blast
  with n3 have reg: "controls ctx' = replicate 3 (control_entry ctx' decl)"
    by simp
  from inst obtain ret ctx1 where
    pc: "process_control default_build ?dev decl ctx' = Some (ret, ctx1)"
    and head: "controls ctx1 =
         (if control_valid ctx' decl then [control_entry ctx' decl] else []) @ controls ctx'"
    and calls: "ioctl_calls ctx1 = ioctl_calls ctx' + (if control_valid ctx' decl then 1 else 0)"
    and answer: "if control_valid ctx' decl
         then (ret = C_V4L2_ERROR) =
                ioctl_failed default_build ctx'
                  (ioctl ?dev (ioctl_calls ctx')
                     (UVCIOC_CTRL_ADD (xu_info (control_entry ctx' decl))))
              \<and> (ret = C_SUCCESS \<or> ret = C_V4L2_ERROR)
         else True"
    by blast
  from head valid have head': "controls ctx1 = control_entry ctx' decl # controls ctx'"
    by simp
  from calls valid have calls': "ioctl_calls ctx1 = ioctl_calls ctx' + 1"
    by simp
  from answer valid accepted have ret: "ret = C_SUCCESS"
    by auto
  from pc head' calls' ret have applied:
    "\<exists>ret ctx1.
        process_control default_build ?dev decl ctx' = Some (ret, ctx1)
        \<and> controls ctx1 = control_entry ctx' decl # controls ctx'
        \<and> ioctl_calls ctx1 = ioctl_calls ctx' + 1
        \<and> ret = C_SUCCESS"
    by blast
  show ?thesis
    by (rule exI [of _ ctx'], rule exI [of _ n], rule exI [of _ r], rule exI [of _ decl])
       (intro conjI run sup n3 single reg i3 applied)
qed

end
